theory Spec2Isabelle
  imports Main
begin

section \<open>C strings\<close>

text \<open>
  A C string is modelled by the list of its characters; the terminating NUL is the end
  of the list. Reading through a \<open>char *\<close> that points at the end of the text yields
  the NUL, and a NUL stored inside the list ends the string there as it does in C.
\<close>

definition NUL :: char where
  "NUL = CHR 0x00"

definition deref :: "string \<Rightarrow> char" where
  "deref p = (case p of [] \<Rightarrow> NUL | x # _ \<Rightarrow> x)"

section \<open>Job credential decoding (src/lib/Libifl/dec\_JobCred.c)\<close>

text \<open>
  The socket is modelled by the bytes that are still unread on it. A DIS read routine
  takes the stream and yields the decoded value, the code stored through its
  \<open>retval\<close> pointer, and the stream that is left.
\<close>

type_synonym stream = "char list"

definition DIS_SUCCESS :: int where
  "DIS_SUCCESS = 0"

text \<open>
  The three members of \<open>preq->rq_ind.rq_jobcred\<close> that the decoder assigns. The
  pointer \<open>rq_data\<close> is \<open>None\<close> when null and otherwise holds the buffer it points to.
\<close>

record rq_jobcred =
  rq_type :: nat
  rq_size :: nat
  rq_data :: "char list option"

text \<open>
  \<open>disrui\<close> and \<open>disrcs\<close> live in Libdis, which is not among the sources; the decoder
  takes them as parameters. \<open>disrcs\<close> yields the buffer pointer and the count stored
  through \<open>nchars\<close>.
\<close>

definition decode_DIS_JobCred ::
  "(stream \<Rightarrow> nat \<times> int \<times> stream) \<Rightarrow>
   (stream \<Rightarrow> (char list option \<times> nat) \<times> int \<times> stream) \<Rightarrow>
   stream \<Rightarrow> rq_jobcred \<Rightarrow> int \<times> stream \<times> rq_jobcred" where
  "decode_DIS_JobCred disrui disrcs sock preq =
     (let preq0 = preq\<lparr>rq_data := None\<rparr>;
          (v, rc, sock1) = disrui sock;
          preq1 = preq0\<lparr>rq_type := v\<rparr>
      in if rc \<noteq> 0 then (rc, sock1, preq1)
         else
           let ((buf, n), rc2, sock2) = disrcs sock1
           in (rc2, sock2, preq1\<lparr>rq_data := buf, rq_size := n\<rparr>))"

text \<open>
  Modelled from the spec: \<open>disrcs\<close> (Libdis, not among the sources), the spec's
  \<open>read_counted_string\<close>: a length prefix followed by that many raw bytes; the buffer
  is sized exactly to the prefix; a prefix that the remaining stream cannot satisfy is
  a failure. The spec leaves the integer encoding open (fixed-width or self-delimited),
  so the reader of the prefix \<open>rd\<close> and the failure code \<open>bad\<close> are parameters.
\<close>

definition disrcs_spec ::
  "(stream \<Rightarrow> nat \<times> int \<times> stream) \<Rightarrow> int \<Rightarrow>
   stream \<Rightarrow> (char list option \<times> nat) \<times> int \<times> stream" where
  "disrcs_spec rd bad s =
     (let (n, rc, s1) = rd s
      in if rc \<noteq> 0 then ((None, 0), rc, s1)
         else if length s1 < n then ((None, 0), bad, s1)
         else ((Some (take n s1), n), DIS_SUCCESS, drop n s1))"

text \<open>
  A fixed-width instance of the integer reader, one byte per integer, failing with
  code 11 at the end of the stream. It serves to run the decoder on concrete streams.
\<close>

definition rd_byte :: "stream \<Rightarrow> nat \<times> int \<times> stream" where
  "rd_byte s = (case s of [] \<Rightarrow> (0, 11, []) | x # xs \<Rightarrow> (of_char x, 0, xs))"

section \<open>Shared state of the client library\<close>

text \<open>
  Modelled from the spec: the error codes of \<open>pbs_error.h\<close>, which is not among the
  sources: the spec's \<open>InvalidRequest\<close>, \<open>BadHost\<close>, \<open>Protocol\<close> and
  \<open>NoConnectionsAvailable\<close>, and the system error reported for a failed allocation.
  The properties below use the codes by name; no proof depends on the numbers.
\<close>

definition PBSE_IVALREQ :: int where "PBSE_IVALREQ = 15004"
definition PBSE_BADHOST :: int where "PBSE_BADHOST = 15008"
definition PBSE_SYSTEM :: int where "PBSE_SYSTEM = 15010"
definition PBSE_PROTOCOL :: int where "PBSE_PROTOCOL = 15031"
definition PBSE_NOCONNECTS :: int where "PBSE_NOCONNECTS = 15033"

text \<open>
  One entry of the global array \<open>connection[NCONNECTS]\<close>, with the members the two
  functions below read and write. \<open>ch_errtxt\<close> is a pointer: \<open>None\<close> when null.
\<close>

record connect_handle =
  ch_inuse :: bool
  ch_errno :: int
  ch_socket :: int
  ch_errtxt :: "string option"

datatype family = AF_UNSPEC | AF_INET | AF_INET6

record sockaddr_in =
  sin_addr :: nat
  sin_port :: nat

text \<open>One node of the list that \<open>getaddrinfo\<close> returns; \<open>ai_next\<close> is the list's tail.\<close>

record addrinfo =
  ai_family :: family
  ai_addr :: sockaddr_in

text \<open>
  Every call that leaves the function (to the thread layer, the resolver, the socket
  layer, the DIS encoder) is recorded, in order, in the trace of the world. Lock and
  unlock events carry the value the call returned.
\<close>

datatype event =
    Init_thread_context
  | Loadconf
  | Lock_conntable int
  | Unlock_conntable int
  | Init_connect_context int
  | Getaddrinfo string family
  | Freeaddrinfo
  | Socket
  | Connect int sockaddr_in
  | Close int
  | DIS_tcp_setup int
  | Lock_connection int int
  | Unlock_connection int int
  | Encode_ReqHdr int
  | Diswui int int
  | Diswsi int int
  | Diswst int string
  | Encode_ReqExtend int "string option"
  | DIS_tcp_wflush int
  | PBSD_rdrpy int
  | PBSD_FreeReply

record world =
  pbs_errno :: int
  connection :: "int \<Rightarrow> connect_handle"
  pbs_tcp_timeout :: int
  trace :: "event list"

text \<open>
  The collaborators are not among the sources. What each of their calls returns is
  taken from an environment. A call into the thread layer has an outcome: the value it
  returns and, when it reports its failure through \<open>pbs_errno\<close> (the callers return
  \<open>pbs_errno\<close> after such a failure), the value it stores there.
\<close>

type_synonym outcome = "int \<times> int option"

record env =
  init_thread_context :: outcome
  loadconf :: int
  lock_conntable :: outcome
  unlock_conntable :: outcome
  init_connect_context :: outcome
  getaddrinfo :: "string \<Rightarrow> family \<Rightarrow> addrinfo list option"
  socket_fd :: int
  connect_rc :: int
  errno :: int
  mom_service_port :: nat
  PBS_DIS_TCP_TIMEOUT_VLONG :: int
  lock_connection :: outcome
  unlock_connection :: outcome
  encode_DIS_ReqHdr :: int
  diswui_cmd :: int
  diswst_id :: int
  diswui_err :: int
  diswsi_has_txt :: int
  diswst_txt :: int
  encode_DIS_ReqExtend :: int
  strdup_ok :: bool
  dis_emsg :: "int \<Rightarrow> string"
  wflush_rc :: int
  rdrpy_slot :: "connect_handle \<Rightarrow> connect_handle"

definition log :: "event \<Rightarrow> world \<Rightarrow> world" where
  "log ev w = w\<lparr>trace := trace w @ [ev]\<rparr>"

definition collab :: "(int \<Rightarrow> event) \<Rightarrow> outcome \<Rightarrow> world \<Rightarrow> int \<times> world" where
  "collab ev out w =
     (fst out,
      (log (ev (fst out)) w)
        \<lparr>pbs_errno := (case snd out of None \<Rightarrow> pbs_errno w | Some e \<Rightarrow> e)\<rparr>)"

text \<open>The events a call has added to the trace.\<close>

definition since :: "world \<Rightarrow> world \<Rightarrow> event list" where
  "since w w' = drop (length (trace w)) (trace w')"

definition strlen :: "string \<Rightarrow> nat" where
  "strlen p = length (takeWhile (\<lambda>x. x \<noteq> NUL) p)"

section \<open>Deferred scheduler reply (src/lib/Libifl/pbsD\_defschreply.c)\<close>

text \<open>A DIS write routine: the call is recorded and returns what the environment says.\<close>

definition dis_write :: "event \<Rightarrow> int \<Rightarrow> world \<Rightarrow> int \<times> world" where
  "dis_write ev rc w = (rc, log ev w)"

text \<open>
  The block that both encode-failure branches of \<open>pbs_defschreply\<close> run: the message
  \<open>dis_emsg[rc]\<close> is duplicated into the slot (a null pointer if \<open>strdup\<close> fails),
  \<open>pbs_errno\<close> is set, the connection is unlocked with the result of the unlock
  discarded, and \<open>pbs_errno\<close> is returned.
\<close>

definition encode_failed :: "env \<Rightarrow> int \<Rightarrow> int \<Rightarrow> world \<Rightarrow> int \<times> world" where
  "encode_failed E c rc w =
     (let txt = (if strdup_ok E then Some (dis_emsg E rc) else None);
          w1 = w\<lparr>connection := (connection w)(c := (connection w c)\<lparr>ch_errtxt := txt\<rparr>)\<rparr>;
          w2 = w1\<lparr>pbs_errno := (if txt = None then PBSE_SYSTEM else PBSE_PROTOCOL)\<rparr>;
          (u, w3) = collab (Unlock_connection c) (unlock_connection E) w2
      in (pbs_errno w3, w3))"

text \<open>
  The first condition of the source, a chain of \<open>||\<close>: the header, the command, the job
  id and the error number are written in this order and the chain stops at the first
  failure. The header's code is assigned to \<open>rc\<close> as it is. For the three writes that
  follow, \<open>rc = diswui(sock, cmd) != 0\<close> assigns the truth value of the comparison:
  after a failure of one of them \<open>rc\<close> is 1, whatever code the write returned.
\<close>

definition encode_first :: "env \<Rightarrow> int \<Rightarrow> int \<Rightarrow> string \<Rightarrow> int \<Rightarrow> world \<Rightarrow> int \<times> world" where
  "encode_first E sock cmd jid err w =
     (let (rh, wa) = dis_write (Encode_ReqHdr sock) (encode_DIS_ReqHdr E) w
      in if rh \<noteq> 0 then (rh, wa)
         else
           let (ra, wb) = dis_write (Diswui sock cmd) (diswui_cmd E) wa
           in if ra \<noteq> 0 then (1, wb)
              else
                let (rb, wc) = dis_write (Diswst sock jid) (diswst_id E) wb
                in if rb \<noteq> 0 then (1, wc)
                   else
                     let (rd, wd) = dis_write (Diswui sock err) (diswui_err E) wc
                     in if rd \<noteq> 0 then (1, wd) else (0, wd))"

text \<open>
  The writes after the first condition: the text flag, the text when there is one and
  the flag was written, and the extension when all went well so far.
\<close>

definition encode_rest ::
  "env \<Rightarrow> int \<Rightarrow> int \<Rightarrow> string option \<Rightarrow> string option \<Rightarrow> world \<Rightarrow> int \<times> world" where
  "encode_rest E sock has_txt txt extend' w =
     (let (rc1, we) = dis_write (Diswsi sock has_txt) (diswsi_has_txt E) w;
          (rc2, wf) = (if has_txt = 1 \<and> rc1 = 0
                       then dis_write (Diswst sock (the txt)) (diswst_txt E) we
                       else (rc1, we))
      in if rc2 = 0
         then dis_write (Encode_ReqExtend sock extend') (encode_DIS_ReqExtend E) wf
         else (rc2, wf))"

text \<open>
  The flush and what follows it: on a failed flush \<open>pbs_errno\<close> is set, the connection
  unlocked and \<open>pbs_errno\<close> returned; otherwise the reply is read (\<open>PBSD_rdrpy\<close>, not
  among the sources, leaves its result in the slot), freed, and the connection unlocked.
\<close>

definition flush_and_reply :: "env \<Rightarrow> int \<Rightarrow> int \<Rightarrow> world \<Rightarrow> int \<times> world" where
  "flush_and_reply E c sock w =
     (let (rf, wh) = dis_write (DIS_tcp_wflush sock) (wflush_rc E) w
      in if rf \<noteq> 0 then
           (let (u, wu) = collab (Unlock_connection c) (unlock_connection E)
                            (wh\<lparr>pbs_errno := PBSE_PROTOCOL\<rparr>)
            in (pbs_errno wu, wu))
         else
           let wi = (log (PBSD_rdrpy c) wh)
                      \<lparr>connection := (connection wh)(c := rdrpy_slot E (connection wh c))\<rparr>;
               rc = ch_errno (connection wi c);
               wj = log PBSD_FreeReply wi;
               (u, wk) = collab (Unlock_connection c) (unlock_connection E) wj
           in if u \<noteq> 0 then (pbs_errno wk, wk) else (rc, wk))"

text \<open>
  The function itself: the checks before the lock, then (\<open>defsch_exchange\<close>) the
  exchange made while the connection is locked.
  The parameter \<open>id\<close> of the source is \<open>jid\<close> here (\<open>id\<close> is the identity function
  of HOL) and \<open>extend\<close> is \<open>extend'\<close>.
\<close>

definition defsch_exchange ::
  "env \<Rightarrow> int \<Rightarrow> int \<Rightarrow> int \<Rightarrow> string \<Rightarrow> int \<Rightarrow> int \<Rightarrow> string option \<Rightarrow> string option \<Rightarrow>
   world \<Rightarrow> int \<times> world" where
  "defsch_exchange E c sock cmd jid err has_txt txt extend' w =
     (let w2 = log (DIS_tcp_setup sock) w;
          (rc, w3) = encode_first E sock cmd jid err w2
      in if rc \<noteq> 0 then encode_failed E c rc w3
         else
           let (rc, w4) = encode_rest E sock has_txt txt extend' w3
           in if rc \<noteq> 0 then encode_failed E c rc w4
              else flush_and_reply E c sock w4)"

definition pbs_defschreply ::
  "env \<Rightarrow> int \<Rightarrow> int \<Rightarrow> string option \<Rightarrow> int \<Rightarrow> string option \<Rightarrow> string option \<Rightarrow>
   world \<Rightarrow> int \<times> world" where
  "pbs_defschreply E c cmd jid err txt extend' w =
     (if jid = None \<or> deref (the jid) = NUL then (PBSE_IVALREQ, w\<lparr>pbs_errno := PBSE_IVALREQ\<rparr>)
      else
        let has_txt = (if txt \<noteq> None \<and> deref (the txt) \<noteq> NUL then 1 else 0);
            sock = ch_socket (connection w c);
            (r0, w0) = collab (\<lambda>r. Init_thread_context) (init_thread_context E) w
        in if r0 \<noteq> 0 then (pbs_errno w0, w0)
           else
             let (r1, w1) = collab (Lock_connection c) (lock_connection E) w0
             in if r1 \<noteq> 0 then (pbs_errno w1, w1)
                else defsch_exchange E c sock cmd (the jid) err has_txt txt extend' w1)"

text \<open>
  The codec error of a request: the code returned by the first encoding call that
  fails, in the order in which the calls are made, and 0 when none fails.
  \<open>body_write_failed\<close> says that this first failure is one of the three writes that
  follow the header in the first condition.
\<close>

definition first_encode_error :: "env \<Rightarrow> int \<Rightarrow> int" where
  "first_encode_error E has_txt =
     (if encode_DIS_ReqHdr E \<noteq> 0 then encode_DIS_ReqHdr E
      else if diswui_cmd E \<noteq> 0 then diswui_cmd E
      else if diswst_id E \<noteq> 0 then diswst_id E
      else if diswui_err E \<noteq> 0 then diswui_err E
      else if diswsi_has_txt E \<noteq> 0 then diswsi_has_txt E
      else if has_txt = 1 \<and> diswst_txt E \<noteq> 0 then diswst_txt E
      else encode_DIS_ReqExtend E)"

definition body_write_failed :: "env \<Rightarrow> bool" where
  "body_write_failed E =
     (encode_DIS_ReqHdr E = 0 \<and> (diswui_cmd E \<noteq> 0 \<or> diswst_id E \<noteq> 0 \<or> diswui_err E \<noteq> 0))"

text \<open>
  Whether the mutex of connection \<open>c\<close> is held after the events of a trace: it is held
  from a lock that returned 0 to the next unlock that returned 0.
\<close>

fun connection_held :: "int \<Rightarrow> bool \<Rightarrow> event list \<Rightarrow> bool" where
  "connection_held c held [] = held"
| "connection_held c held (Lock_connection d r # es) =
     connection_held c (held \<or> (d = c \<and> r = 0)) es"
| "connection_held c held (Unlock_connection d r # es) =
     connection_held c (held \<and> \<not> (d = c \<and> r = 0)) es"
| "connection_held c held (e # es) = connection_held c held es"

fun is_unlock_connection :: "int \<Rightarrow> event \<Rightarrow> bool" where
  "is_unlock_connection c (Unlock_connection d r) = (d = c)"
| "is_unlock_connection c e = False"

text \<open>The events that put bytes into the socket's write buffer or send them.\<close>

fun is_write :: "event \<Rightarrow> bool" where
  "is_write (Encode_ReqHdr s) = True"
| "is_write (Diswui s v) = True"
| "is_write (Diswsi s v) = True"
| "is_write (Diswst s v) = True"
| "is_write (Encode_ReqExtend s v) = True"
| "is_write (DIS_tcp_wflush s) = True"
| "is_write e = False"

section \<open>Connecting to MOM (src/lib/Libcmds/cnt2mom.c)\<close>

text \<open>
  The scan for an available slot: \<open>for (conn=1; conn<NCONNECTS; conn++)\<close>, left by
  \<open>break\<close> at the first slot that is not in use. The result is the value of \<open>conn\<close>
  after the loop; it is \<open>NCONNECTS\<close> or more when every slot from 1 on is in use.
\<close>

function find_slot :: "(int \<Rightarrow> connect_handle) \<Rightarrow> int \<Rightarrow> int \<Rightarrow> int" where
  "find_slot tbl n conn =
     (if conn < n then (if ch_inuse (tbl conn) then find_slot tbl n (conn + 1) else conn)
      else conn)"
  by pat_completeness auto
termination
  by (relation "measure (\<lambda>(tbl, n, conn). nat (n - conn))") auto

declare find_slot.simps [simp del]

text \<open>The walk along \<open>ai_next\<close> that stops at the first node of family \<open>AF_INET\<close>.\<close>

fun first_inet :: "addrinfo list \<Rightarrow> addrinfo option" where
  "first_inet [] = None"
| "first_inet (aip # rest) = (if ai_family aip = AF_INET then Some aip else first_inet rest)"

text \<open>The label \<open>err\<close>: unlock the table, discard what the unlock returns, return -1.\<close>

definition err_exit :: "env \<Rightarrow> world \<Rightarrow> int \<times> world" where
  "err_exit E w = (let (u, w') = collab Unlock_conntable (unlock_conntable E) w in (- 1, w'))"

text \<open>
  From the creation of the socket to the end of the function. \<open>htons\<close> changes the
  byte order of the port, not the port: \<open>sin_port\<close> holds the port number.
\<close>

definition establish :: "env \<Rightarrow> int \<Rightarrow> addrinfo \<Rightarrow> world \<Rightarrow> int \<times> world" where
  "establish E conn aip w =
     (let inp = (ai_addr aip)\<lparr>sin_port := mom_service_port E\<rparr>;
          w1 = log Socket w;
          sd = socket_fd E
      in if sd < 0 then err_exit E (w1\<lparr>pbs_errno := PBSE_PROTOCOL\<rparr>)
         else
           let w2 = log (Connect sd inp) w1
           in if connect_rc E < 0
              then err_exit E (log Freeaddrinfo ((log (Close sd) w2)\<lparr>pbs_errno := errno E\<rparr>))
              else
                let w3 = log (DIS_tcp_setup sd) (log Freeaddrinfo w2);
                    w4 = w3\<lparr>pbs_tcp_timeout := PBS_DIS_TCP_TIMEOUT_VLONG E\<rparr>;
                    w5 = w4\<lparr>connection := (connection w4)
                           (conn := (connection w4 conn)
                              \<lparr>ch_inuse := True, ch_errno := 0, ch_socket := sd,
                               ch_errtxt := None\<rparr>)\<rparr>;
                    (r, w6) = collab (\<lambda>r. Init_connect_context conn) (init_connect_context E) w5
                in if r \<noteq> 0
                   then
                     let w7 = log (Close (ch_socket (connection w6 conn))) w6;
                         w8 = w7\<lparr>connection := (connection w7)
                                (conn := (connection w7 conn)\<lparr>ch_inuse := False\<rparr>)\<rparr>
                     in err_exit E w8
                   else
                     let (u, w9) = collab Unlock_conntable (unlock_conntable E) w6
                     in if u \<noteq> 0 then (- 1, w9) else (conn, w9))"

text \<open>
  The host that is resolved: \<open>"localhost"\<close> for a null pointer and for an empty string.
\<close>

definition default_host :: "string option \<Rightarrow> string" where
  "default_host momhost =
     (let momhost1 = (case momhost of None \<Rightarrow> ''localhost'' | Some h \<Rightarrow> h)
      in if strlen momhost1 \<le> 0 then ''localhost'' else momhost1)"

text \<open>From the slot scan on: what the function does while it holds the table lock.\<close>

definition connect_locked :: "int \<Rightarrow> env \<Rightarrow> string option \<Rightarrow> world \<Rightarrow> int \<times> world" where
  "connect_locked NCONNECTS E momhost w =
     (let conn = find_slot (connection w) NCONNECTS 1
      in if conn \<ge> NCONNECTS then err_exit E (w\<lparr>pbs_errno := PBSE_NOCONNECTS\<rparr>)
         else
           let momhost2 = default_host momhost;
               w1 = log (Getaddrinfo momhost2 AF_UNSPEC) w
           in case getaddrinfo E momhost2 AF_UNSPEC of
                None \<Rightarrow> err_exit E (w1\<lparr>pbs_errno := PBSE_BADHOST\<rparr>)
              | Some pai \<Rightarrow>
                  (case first_inet pai of
                     None \<Rightarrow> err_exit E (w1\<lparr>pbs_errno := PBSE_BADHOST\<rparr>)
                   | Some aip \<Rightarrow> establish E conn aip w1))"

definition pbs_connect2mom :: "int \<Rightarrow> env \<Rightarrow> string option \<Rightarrow> world \<Rightarrow> int \<times> world" where
  "pbs_connect2mom NCONNECTS E momhost w =
     (let (r0, w0) = collab (\<lambda>r. Init_thread_context) (init_thread_context E) w
      in if r0 \<noteq> 0 then (- 1, w0)
         else
           let w1 = log Loadconf w0
           in if loadconf E = 0 then (- 1, w1)
              else
                let (r2, w2) = collab Lock_conntable (lock_conntable E) w1
                in if r2 \<noteq> 0 then (- 1, w2)
                   else connect_locked NCONNECTS E momhost w2)"

definition cnt2mom :: "int \<Rightarrow> env \<Rightarrow> string option \<Rightarrow> world \<Rightarrow> int \<times> world" where
  "cnt2mom NCONNECTS E momhost w = pbs_connect2mom NCONNECTS E momhost w"

text \<open>
  The failures between the choice of a slot and the end of the context setup, read off
  the environment: the resolution fails or yields no IPv4 address, the socket is not
  created, the TCP connect fails, or the context setup fails.
\<close>

definition bind_fails :: "env \<Rightarrow> string option \<Rightarrow> bool" where
  "bind_fails E momhost =
     (case getaddrinfo E (default_host momhost) AF_UNSPEC of
        None \<Rightarrow> True
      | Some pai \<Rightarrow>
          (case first_inet pai of
             None \<Rightarrow> True
           | Some aip \<Rightarrow>
               socket_fd E < 0 \<or> connect_rc E < 0 \<or> fst (init_connect_context E) \<noteq> 0))"

fun is_getaddrinfo :: "event \<Rightarrow> bool" where
  "is_getaddrinfo (Getaddrinfo h f) = True"
| "is_getaddrinfo e = False"

fun is_connect :: "event \<Rightarrow> bool" where
  "is_connect (Connect sd a) = True"
| "is_connect e = False"

text \<open>A sequence of connects, each with its own environment and host.\<close>

fun connects :: "int \<Rightarrow> (env \<times> string option) list \<Rightarrow> world \<Rightarrow> int list \<times> world" where
  "connects n [] w = ([], w)"
| "connects n ((E, momhost) # calls) w =
     (let (r, w1) = pbs_connect2mom n E momhost w;
          (rs, w2) = connects n calls w1
      in (r # rs, w2))"

text \<open>
  Modelled from the spec: \<open>release_slot\<close> (the disconnect of the library is not among
  the sources): closes the socket, clears ownership, frees the error text and marks the
  slot not in use.
\<close>

definition release_slot :: "int \<Rightarrow> world \<Rightarrow> world" where
  "release_slot c w =
     (let w1 = log (Close (ch_socket (connection w c))) w
      in w1\<lparr>connection := (connection w1)
              (c := (connection w1 c)\<lparr>ch_inuse := False, ch_socket := - 1, ch_errtxt := None\<rparr>)\<rparr>)"

text \<open>The slots of the table \<open>connection[0 .. NCONNECTS-1]\<close> that are free or in use.\<close>

definition free_slots :: "int \<Rightarrow> (int \<Rightarrow> connect_handle) \<Rightarrow> nat" where
  "free_slots n tbl = length (filter (\<lambda>i. \<not> ch_inuse (tbl i)) [0..n - 1])"

definition used_slots :: "int \<Rightarrow> (int \<Rightarrow> connect_handle) \<Rightarrow> nat" where
  "used_slots n tbl = length (filter (\<lambda>i. ch_inuse (tbl i)) [0..n - 1])"

text \<open>
  The table lock along a trace. \<open>is_net_io\<close> marks address resolution, socket creation
  and TCP connect; \<open>is_locked_work\<close> marks these and the setup of the connection
  context. \<open>work_all_locked held es\<close> says that every event of \<open>es\<close> marked by
  \<open>is_locked_work\<close> happens while the table lock is held, \<open>io_none_locked held es\<close>
  that no network operation does; \<open>held\<close> is the state of the lock before the first
  event. The lock is held from a \<open>Lock_conntable\<close> that returned 0 to the next
  \<open>Unlock_conntable\<close> that returned 0.
\<close>

fun is_net_io :: "event \<Rightarrow> bool" where
  "is_net_io (Getaddrinfo h f) = True"
| "is_net_io Socket = True"
| "is_net_io (Connect sd a) = True"
| "is_net_io e = False"

fun is_table_lock :: "event \<Rightarrow> bool" where
  "is_table_lock (Lock_conntable r) = True"
| "is_table_lock (Unlock_conntable r) = True"
| "is_table_lock e = False"

fun is_locked_work :: "event \<Rightarrow> bool" where
  "is_locked_work (Getaddrinfo h f) = True"
| "is_locked_work Socket = True"
| "is_locked_work (Connect sd a) = True"
| "is_locked_work (Init_connect_context c) = True"
| "is_locked_work e = False"

fun work_all_locked :: "bool \<Rightarrow> event list \<Rightarrow> bool" where
  "work_all_locked held [] = True"
| "work_all_locked held (Lock_conntable r # es) = work_all_locked (held \<or> r = 0) es"
| "work_all_locked held (Unlock_conntable r # es) = work_all_locked (held \<and> r \<noteq> 0) es"
| "work_all_locked held (e # es) = ((\<not> is_locked_work e \<or> held) \<and> work_all_locked held es)"

fun io_none_locked :: "bool \<Rightarrow> event list \<Rightarrow> bool" where
  "io_none_locked held [] = True"
| "io_none_locked held (Lock_conntable r # es) = io_none_locked (held \<or> r = 0) es"
| "io_none_locked held (Unlock_conntable r # es) = io_none_locked (held \<and> r \<noteq> 0) es"
| "io_none_locked held (e # es) = ((\<not> is_net_io e \<or> \<not> held) \<and> io_none_locked held es)"

section \<open>Staging file names (src/lib/Libcmds/parse\_stage.c)\<close>

text \<open>
  The character classes of \<open><ctype.h>\<close> in the C locale (a byte above 126 is neither
  printable nor white space), and the two macros of the source file.
\<close>

definition isspace :: "char \<Rightarrow> bool" where
  "isspace x = (x = CHR '' '' \<or> (9 \<le> (of_char x :: nat) \<and> (of_char x :: nat) \<le> 13))"

definition isprint :: "char \<Rightarrow> bool" where
  "isprint x = (32 \<le> (of_char x :: nat) \<and> (of_char x :: nat) \<le> 126)"

definition ISNAMECHAR :: "char \<Rightarrow> bool" where
  "ISNAMECHAR x = ((isprint x \<or> isspace x) \<and> x \<noteq> CHR ''@'')"

definition ISNAMECHAR2 :: "char \<Rightarrow> bool" where
  "ISNAMECHAR2 x = (isprint x \<and> \<not> isspace x \<and> x \<noteq> CHR ''@'' \<and> x \<noteq> CHR '':'')"

text \<open>\<open>while (isspace(*c)) c++;\<close>\<close>

fun skip_space :: "string \<Rightarrow> string" where
  "skip_space [] = []"
| "skip_space (x # xs) = (if isspace x then skip_space xs else x # xs)"

text \<open>
  An output argument is a pointer to memory of the caller: a function from offsets to
  characters. The three copying loops of \<open>parse_stage_name\<close> have one shape,
  \<^verbatim>\<open>while (*c != '\0') { if (OK(*c)) { if (pos >= LIMIT) return 1; buf[pos++] = *c; } else break; c++; }\<close>
  with the character class and the limit as the only differences. \<open>copy_part\<close> is that
  loop; its result says whether the function returned 1 from inside the loop, and gives
  \<open>c\<close>, the buffer and the position as the loop left them.
\<close>

type_synonym buffer = "nat \<Rightarrow> char"

fun copy_part ::
  "(char \<Rightarrow> bool) \<Rightarrow> nat \<Rightarrow> string \<Rightarrow> buffer \<Rightarrow> nat \<Rightarrow> bool \<times> string \<times> buffer \<times> nat" where
  "copy_part ok limit [] buf pos = (False, [], buf, pos)"
| "copy_part ok limit (x # xs) buf pos =
     (if x \<noteq> NUL then
        (if ok x then
           (if pos \<ge> limit then (True, x # xs, buf, pos)
            else copy_part ok limit xs (buf(pos := x)) (pos + 1))
         else (False, x # xs, buf, pos))
      else (False, x # xs, buf, pos))"

text \<open>
  \<open>parse_stage_name\<close> as built without \<open>WIN32\<close>. \<open>MAXPATHLEN\<close> and
  \<open>PBS_MAXSERVERNAME\<close> come from headers that are not among the sources and are
  parameters. The result is the returned value and the three buffers.
\<close>

definition parse_stage_name ::
  "nat \<Rightarrow> nat \<Rightarrow> string \<Rightarrow> buffer \<Rightarrow> buffer \<Rightarrow> buffer \<Rightarrow> int \<times> buffer \<times> buffer \<times> buffer" where
  "parse_stage_name MAXPATHLEN PBS_MAXSERVERNAME pair local_name host_name remote_name =
     (let c0 = skip_space pair;
          (full1, c1, local1, l_pos) = copy_part ISNAMECHAR MAXPATHLEN c0 local_name 0
      in if full1 then (1, local1, host_name, remote_name)
         else if l_pos = 0 then (1, local1, host_name, remote_name)
         else
           let (full2, c2, host1, h_pos) =
                 (if deref c1 = CHR ''@''
                  then copy_part ISNAMECHAR2 PBS_MAXSERVERNAME (tl c1) host_name 0
                  else (False, c1, host_name, 0))
           in if full2 then (1, local1, host1, remote_name)
              else if deref c1 = CHR ''@'' \<and> h_pos = 0 then (1, local1, host1, remote_name)
              else
                let (full3, c3, remote1, r_pos) =
                      (if deref c2 = CHR '':''
                       then copy_part ISNAMECHAR MAXPATHLEN (tl c2) remote_name 0
                       else (False, c2, remote_name, 0))
                in if full3 then (1, local1, host1, remote1)
                   else if r_pos = 0 then (1, local1, host1, remote1)
                   else if deref c3 \<noteq> NUL then (1, local1, host1, remote1)
                   else (0, local1(l_pos := NUL), host1(h_pos := NUL),
                         remote1(r_pos := NUL)))"

text \<open>
  The parts of a staging pair \<open>local@host:remote\<close>, read off the input text: the local
  part is the run of name characters after the leading white space, the host part the
  run of host characters after the \<open>@\<close> that ends the local part, the remote part the
  run of name characters after the \<open>:\<close> that ends the host part; \<open>after_remote\<close> is
  what follows the remote part.
\<close>

definition local_part :: "string \<Rightarrow> string" where
  "local_part pair = takeWhile ISNAMECHAR (skip_space pair)"

definition after_local :: "string \<Rightarrow> string" where
  "after_local pair = dropWhile ISNAMECHAR (skip_space pair)"

definition host_part :: "string \<Rightarrow> string" where
  "host_part pair =
     (if deref (after_local pair) = CHR ''@''
      then takeWhile ISNAMECHAR2 (tl (after_local pair)) else [])"

definition after_host :: "string \<Rightarrow> string" where
  "after_host pair =
     (if deref (after_local pair) = CHR ''@''
      then dropWhile ISNAMECHAR2 (tl (after_local pair)) else after_local pair)"

definition remote_part :: "string \<Rightarrow> string" where
  "remote_part pair =
     (if deref (after_host pair) = CHR '':''
      then takeWhile ISNAMECHAR (tl (after_host pair)) else [])"

definition after_remote :: "string \<Rightarrow> string" where
  "after_remote pair =
     (if deref (after_host pair) = CHR '':''
      then dropWhile ISNAMECHAR (tl (after_host pair)) else after_host pair)"

text \<open>
  A pair is well formed within the limits when its three parts are not empty, none is
  longer than its limit, and nothing follows the remote part. \<open>stored buf s\<close> is the
  buffer \<open>buf\<close> after the characters of \<open>s\<close> and a terminating NUL were written at its
  start.
\<close>

definition well_formed_pair :: "nat \<Rightarrow> nat \<Rightarrow> string \<Rightarrow> bool" where
  "well_formed_pair MAXPATHLEN PBS_MAXSERVERNAME pair =
     (local_part pair \<noteq> [] \<and> length (local_part pair) \<le> MAXPATHLEN
      \<and> host_part pair \<noteq> [] \<and> length (host_part pair) \<le> PBS_MAXSERVERNAME
      \<and> remote_part pair \<noteq> [] \<and> length (remote_part pair) \<le> MAXPATHLEN
      \<and> deref (after_remote pair) = NUL)"

definition stored :: "buffer \<Rightarrow> string \<Rightarrow> buffer" where
  "stored buf s = (\<lambda>i. if i < length s then s ! i else if i = length s then NUL else buf i)"


section \<open>A concrete environment\<close>

text \<open>
  An environment in which every collaborator succeeds, a table with no slot in use,
  and a table whose slot 1 holds an open connection. They serve to run the functions
  on concrete inputs.
\<close>

definition loopback :: "addrinfo list" where
  "loopback =
     [\<lparr>ai_family = AF_INET6, ai_addr = \<lparr>sin_addr = 1, sin_port = 0\<rparr>\<rparr>,
      \<lparr>ai_family = AF_INET, ai_addr = \<lparr>sin_addr = 2130706433, sin_port = 0\<rparr>\<rparr>]"

definition env0 :: env where
  "env0 =
     \<lparr>init_thread_context = (0, None), loadconf = 1,
      lock_conntable = (0, None), unlock_conntable = (0, None),
      init_connect_context = (0, None),
      getaddrinfo = (\<lambda>h f. if h = ''localhost'' then Some loopback else None),
      socket_fd = 3, connect_rc = 0, errno = 0, mom_service_port = 15003,
      PBS_DIS_TCP_TIMEOUT_VLONG = 10800,
      lock_connection = (0, None), unlock_connection = (0, None),
      encode_DIS_ReqHdr = 0, diswui_cmd = 0, diswst_id = 0, diswui_err = 0,
      diswsi_has_txt = 0, diswst_txt = 0, encode_DIS_ReqExtend = 0,
      strdup_ok = True,
      dis_emsg = (\<lambda>rc. if rc = 1 then ''overflow'' else if rc = 9 then ''protocol failure''
                       else ''other''),
      wflush_rc = 0,
      rdrpy_slot = (\<lambda>h. h\<lparr>ch_errno := 0\<rparr>)\<rparr>"

definition free_table :: "int \<Rightarrow> connect_handle" where
  "free_table i = \<lparr>ch_inuse = False, ch_errno = 0, ch_socket = - 1, ch_errtxt = None\<rparr>"

definition world0 :: world where
  "world0 = \<lparr>pbs_errno = 0, connection = free_table, pbs_tcp_timeout = 0, trace = []\<rparr>"


definition world1 :: world where
  "world1 =
     \<lparr>pbs_errno = 0,
      connection = free_table
        (1 := \<lparr>ch_inuse = True, ch_errno = 0, ch_socket = 3, ch_errtxt = None\<rparr>),
      pbs_tcp_timeout = 10800, trace = []\<rparr>"

section \<open>Steps and their effect on the world\<close>

lemma collab_fst [simp]: "fst (collab ev out w) = fst out"
  by (simp add: collab_def)

lemma collab_trace [simp]: "trace (snd (collab ev out w)) = trace w @ [ev (fst out)]"
  by (simp add: collab_def log_def)

lemma collab_connection [simp]: "connection (snd (collab ev out w)) = connection w"
  by (simp add: collab_def log_def)

lemma collab_errno [simp]:
  "pbs_errno (snd (collab ev out w)) = (case snd out of None \<Rightarrow> pbs_errno w | Some e \<Rightarrow> e)"
  by (simp add: collab_def log_def)

lemma log_simps [simp]:
  "trace (log ev w) = trace w @ [ev]" "connection (log ev w) = connection w"
  "pbs_errno (log ev w) = pbs_errno w"
  by (simp_all add: log_def)

lemma since_append: "trace w' = trace w @ evs \<Longrightarrow> since w w' = evs"
  by (simp add: since_def)

section \<open>Properties of the deferred scheduler reply\<close>

lemma encode_first_effect:
  "\<exists>evs. trace (snd (encode_first E sock cmd jid err w)) = trace w @ evs
       \<and> (\<forall>e \<in> set evs. is_write e)
       \<and> connection (snd (encode_first E sock cmd jid err w)) = connection w
       \<and> pbs_errno (snd (encode_first E sock cmd jid err w)) = pbs_errno w"
  by (simp add: encode_first_def dis_write_def Let_def)

lemma encode_rest_effect:
  "\<exists>evs. trace (snd (encode_rest E sock h tx ex w)) = trace w @ evs
       \<and> (\<forall>e \<in> set evs. is_write e)
       \<and> connection (snd (encode_rest E sock h tx ex w)) = connection w
       \<and> pbs_errno (snd (encode_rest E sock h tx ex w)) = pbs_errno w"
  by (simp add: encode_rest_def dis_write_def Let_def)

text \<open>The code of the first encode that fails, as the two encoding phases report it.\<close>

lemma encode_first_fst:
  "fst (encode_first E sock cmd jid err w) =
     (if encode_DIS_ReqHdr E \<noteq> 0 then encode_DIS_ReqHdr E
      else if diswui_cmd E \<noteq> 0 \<or> diswst_id E \<noteq> 0 \<or> diswui_err E \<noteq> 0 then 1 else 0)"
  by (simp add: encode_first_def dis_write_def Let_def)

lemma encode_rest_fst:
  "fst (encode_rest E sock h tx ex w) =
     (if diswsi_has_txt E \<noteq> 0 then diswsi_has_txt E
      else if h = 1 \<and> diswst_txt E \<noteq> 0 then diswst_txt E
      else encode_DIS_ReqExtend E)"
  by (simp add: encode_rest_def dis_write_def Let_def)

lemma encode_failed_trace:
  "trace (snd (encode_failed E c rc w)) = trace w @ [Unlock_connection c (fst (unlock_connection E))]"
  by (simp add: encode_failed_def Let_def case_prod_beta)

lemma encode_failed_fst:
  "fst (encode_failed E c rc w) =
     (case snd (unlock_connection E) of
        None \<Rightarrow> if strdup_ok E then PBSE_PROTOCOL else PBSE_SYSTEM
      | Some e \<Rightarrow> e)"
  by (simp add: encode_failed_def Let_def case_prod_beta split: option.splits)

lemma encode_failed_connection:
  "connection (snd (encode_failed E c rc w)) =
     (connection w)(c := (connection w c)\<lparr>ch_errtxt := if strdup_ok E then Some (dis_emsg E rc) else None\<rparr>)"
  by (simp add: encode_failed_def Let_def case_prod_beta)

lemma flush_and_reply_trace:
  "\<exists>evs. trace (snd (flush_and_reply E c sock w))
      = trace w @ evs @ [Unlock_connection c (fst (unlock_connection E))]
      \<and> (\<forall>e \<in> set evs. \<not> is_unlock_connection c e \<and> (\<forall>r. e \<noteq> Lock_connection c r))"
  by (simp add: flush_and_reply_def dis_write_def Let_def collab_def log_def)

lemma flush_failed:
  "wflush_rc E \<noteq> 0 \<Longrightarrow>
     fst (flush_and_reply E c sock w) =
       (case snd (unlock_connection E) of None \<Rightarrow> PBSE_PROTOCOL | Some e \<Rightarrow> e)
   \<and> connection (snd (flush_and_reply E c sock w)) = connection w"
  by (simp add: flush_and_reply_def dis_write_def Let_def case_prod_beta split: option.splits)

lemma is_write_not_lock:
  "is_write e \<Longrightarrow> \<not> is_unlock_connection c e \<and> (\<forall>r. e \<noteq> Lock_connection c r)"
  by (cases e) auto

lemma connection_held_skip:
  "\<forall>e \<in> set evs. \<not> is_unlock_connection c e \<and> (\<forall>r. e \<noteq> Lock_connection c r) \<Longrightarrow>
   connection_held c h (evs @ es) = connection_held c h es"
  by (induction c h evs rule: connection_held.induct) auto

lemma defsch_exchange_trace:
  "\<exists>evs. trace (snd (defsch_exchange E c sock cmd j err h tx ex w))
            = trace w @ evs @ [Unlock_connection c (fst (unlock_connection E))]
          \<and> (\<forall>e \<in> set evs. \<not> is_unlock_connection c e \<and> (\<forall>r. e \<noteq> Lock_connection c r))"
proof -
  let ?w2 = "log (DIS_tcp_setup sock) w"
  let ?p3 = "encode_first E sock cmd j err ?w2"
  let ?p4 = "encode_rest E sock h tx ex (snd ?p3)"
  let ?u = "Unlock_connection c (fst (unlock_connection E))"
  let ?w' = "snd (defsch_exchange E c sock cmd j err h tx ex w)"
  obtain e3 where e3: "trace (snd ?p3) = trace ?w2 @ e3" "\<forall>e \<in> set e3. is_write e"
    using encode_first_effect by blast
  obtain e4 where e4: "trace (snd ?p4) = trace (snd ?p3) @ e4" "\<forall>e \<in> set e4. is_write e"
    using encode_rest_effect by blast
  obtain e5 where e5: "trace (snd (flush_and_reply E c sock (snd ?p4))) = trace (snd ?p4) @ e5 @ [?u]"
      "\<forall>e \<in> set e5. \<not> is_unlock_connection c e \<and> (\<forall>r. e \<noteq> Lock_connection c r)"
    using flush_and_reply_trace by blast
  have run: "defsch_exchange E c sock cmd j err h tx ex w =
      (if fst ?p3 \<noteq> 0 then encode_failed E c (fst ?p3) (snd ?p3)
       else if fst ?p4 \<noteq> 0 then encode_failed E c (fst ?p4) (snd ?p4)
       else flush_and_reply E c sock (snd ?p4))"
    by (simp add: defsch_exchange_def Let_def case_prod_beta)
  consider (a) "fst ?p3 \<noteq> 0" | (b) "fst ?p3 = 0" "fst ?p4 \<noteq> 0" | (c) "fst ?p3 = 0" "fst ?p4 = 0"
    by blast
  then show ?thesis
  proof cases
    case a
    then have "trace ?w' = trace w @ (DIS_tcp_setup sock # e3) @ [?u]"
      using run e3 by (simp add: encode_failed_trace)
    then show ?thesis
      using e3(2) is_write_not_lock by (intro exI [of _ "DIS_tcp_setup sock # e3"]) auto
  next
    case b
    then have "trace ?w' = trace w @ (DIS_tcp_setup sock # e3 @ e4) @ [?u]"
      using run e3 e4 by (simp add: encode_failed_trace)
    then show ?thesis
      using e3(2) e4(2) is_write_not_lock by (intro exI [of _ "DIS_tcp_setup sock # e3 @ e4"]) auto
  next
    case c
    then have "trace ?w' = trace w @ (DIS_tcp_setup sock # e3 @ e4 @ e5) @ [?u]"
      using run e3 e4 e5 by simp
    then show ?thesis
      using e3(2) e4(2) e5(2) is_write_not_lock
      by (intro exI [of _ "DIS_tcp_setup sock # e3 @ e4 @ e5"]) auto
  qed
qed

lemma defschreply_locked:
  assumes "jid = Some j" "deref j \<noteq> NUL"
      and "fst (init_thread_context E) = 0" "fst (lock_connection E) = 0"
  shows "pbs_defschreply E c cmd jid err tx extend' w =
           defsch_exchange E c (ch_socket (connection w c)) cmd j err
             (if tx \<noteq> None \<and> deref (the tx) \<noteq> NUL then 1 else 0) tx extend'
             (snd (collab (Lock_connection c) (lock_connection E)
                (snd (collab (\<lambda>r. Init_thread_context) (init_thread_context E) w))))"
  using assms by (simp add: pbs_defschreply_def Let_def case_prod_beta)

lemma defsch_exchange_result:
  assumes "snd (unlock_connection E) = None"
      and k_def: "k = first_encode_error E h"
      and p_def: "p = defsch_exchange E c sock cmd j err h tx ex w"
  shows "(k \<noteq> 0 \<and> strdup_ok E \<longrightarrow> fst p = PBSE_PROTOCOL
            \<and> (\<not> body_write_failed E \<longrightarrow> ch_errtxt (connection (snd p) c) = Some (dis_emsg E k))
            \<and> (body_write_failed E \<longrightarrow> ch_errtxt (connection (snd p) c) = Some (dis_emsg E 1)))
       \<and> (k \<noteq> 0 \<and> \<not> strdup_ok E \<longrightarrow> fst p = PBSE_SYSTEM \<and> ch_errtxt (connection (snd p) c) = None)
       \<and> (k = 0 \<and> wflush_rc E \<noteq> 0 \<longrightarrow> fst p = PBSE_PROTOCOL \<and> connection (snd p) = connection w)"
proof -
  let ?w2 = "log (DIS_tcp_setup sock) w"
  let ?p3 = "encode_first E sock cmd j err ?w2"
  let ?p4 = "encode_rest E sock h tx ex (snd ?p3)"
  have run: "p =
      (if fst ?p3 \<noteq> 0 then encode_failed E c (fst ?p3) (snd ?p3)
       else if fst ?p4 \<noteq> 0 then encode_failed E c (fst ?p4) (snd ?p4)
       else flush_and_reply E c sock (snd ?p4))"
    by (simp add: p_def defsch_exchange_def Let_def case_prod_beta)
  have c3: "connection (snd ?p3) = connection w"
    using encode_first_effect [of E sock cmd j err ?w2] by auto
  have c4: "connection (snd ?p4) = connection w"
    using encode_rest_effect [of E sock h tx ex "snd ?p3"] c3 by auto
  consider (a) "fst ?p3 \<noteq> 0" | (b) "fst ?p3 = 0" "fst ?p4 \<noteq> 0" | (c) "fst ?p3 = 0" "fst ?p4 = 0"
    by blast
  then show ?thesis
  proof cases
    case a
    then have "p = encode_failed E c (fst ?p3) (snd ?p3)" using run by simp
    moreover have "k \<noteq> 0" "\<not> body_write_failed E \<longrightarrow> fst ?p3 = k"
        "body_write_failed E \<longrightarrow> fst ?p3 = 1"
      using a by (auto simp: k_def first_encode_error_def body_write_failed_def encode_first_fst
          split: if_splits)
    ultimately show ?thesis
      using assms(1) c3 by (auto simp: encode_failed_fst encode_failed_connection)
  next
    case b
    then have "p = encode_failed E c (fst ?p4) (snd ?p4)" using run by simp
    moreover have "k \<noteq> 0" "\<not> body_write_failed E" "fst ?p4 = k"
      using b by (auto simp: k_def first_encode_error_def body_write_failed_def encode_first_fst
          encode_rest_fst split: if_splits)
    ultimately show ?thesis
      using assms(1) c4 by (auto simp: encode_failed_fst encode_failed_connection)
  next
    case c
    then have "p = flush_and_reply E c sock (snd ?p4)" using run by simp
    moreover have "k = 0"
      using c by (auto simp: k_def first_encode_error_def encode_first_fst
          encode_rest_fst split: if_splits)
    ultimately show ?thesis
      using assms(1) c4 flush_failed [of E c sock "snd ?p4"] by auto
  qed
qed

text \<open>
  C1: for every connection handle, command, error number, text and extension,
  \<open>pbs_defschreply\<close> called with a null or empty job id returns \<open>PBSE_IVALREQ\<close>. It
  does so before it calls anything: the call adds no event to the trace, in particular
  no write to the socket, takes no lock, and leaves the connection table as it was; only
  \<open>pbs_errno\<close> changes.
\<close>

theorem defschreply_invalid_id:
  "jid = None \<or> jid = Some [] \<Longrightarrow>
     fst (pbs_defschreply E c cmd jid err tx extend' w) = PBSE_IVALREQ
   \<and> snd (pbs_defschreply E c cmd jid err tx extend' w) = w\<lparr>pbs_errno := PBSE_IVALREQ\<rparr>
   \<and> since w (snd (pbs_defschreply E c cmd jid err tx extend' w)) = []
   \<and> filter is_write (trace (snd (pbs_defschreply E c cmd jid err tx extend' w)))
       = filter is_write (trace w)
   \<and> connection (snd (pbs_defschreply E c cmd jid err tx extend' w)) = connection w"
  by (auto simp: pbs_defschreply_def deref_def since_def)

theorem defschreply_invalid_id_witness:
  "fst (pbs_defschreply env0 1 0 (Some []) 0 None None world1) = PBSE_IVALREQ
   \<and> since world1 (snd (pbs_defschreply env0 1 0 (Some []) 0 None None world1)) = []
   \<and> fst (pbs_defschreply env0 1 0 None 0 None None world1) = PBSE_IVALREQ
   \<and> since world1 (snd (pbs_defschreply env0 1 0 None 0 None None world1)) = []"
  using defschreply_invalid_id [where jid = "Some []" and E = env0 and c = 1 and cmd = 0
      and err = 0 and tx = None and extend' = None and w = world1]
    defschreply_invalid_id [where jid = None and E = env0 and c = 1 and cmd = 0
      and err = 0 and tx = None and extend' = None and w = world1]
  by (simp add: since_def)

text \<open>
  C8: once \<open>pbs_defschreply\<close> has acquired the lock of the connection, every path to a
  return (encode failure, flush failure, reply processing) makes exactly one call of
  \<open>pbs_client_thread_unlock_connection\<close> for that connection, as the last thing it does;
  when that call reports success the mutex is not held after the call.
\<close>

theorem defschreply_unlocks_once:
  assumes "jid = Some j" "deref j \<noteq> NUL"
      and "fst (init_thread_context E) = 0" "fst (lock_connection E) = 0"
  shows "length (filter (is_unlock_connection c)
            (since w (snd (pbs_defschreply E c cmd jid err tx extend' w)))) = 1
       \<and> last (since w (snd (pbs_defschreply E c cmd jid err tx extend' w)))
           = Unlock_connection c (fst (unlock_connection E))
       \<and> (fst (unlock_connection E) = 0 \<longrightarrow>
            \<not> connection_held c h (since w (snd (pbs_defschreply E c cmd jid err tx extend' w))))"
proof -
  let ?u = "Unlock_connection c (fst (unlock_connection E))"
  let ?w1 = "snd (collab (Lock_connection c) (lock_connection E)
                (snd (collab (\<lambda>r. Init_thread_context) (init_thread_context E) w)))"
  obtain evs where evs:
    "trace (snd (pbs_defschreply E c cmd jid err tx extend' w)) = trace ?w1 @ evs @ [?u]"
    "\<forall>e \<in> set evs. \<not> is_unlock_connection c e \<and> (\<forall>r. e \<noteq> Lock_connection c r)"
    using defsch_exchange_trace defschreply_locked [OF assms] by metis
  have s: "since w (snd (pbs_defschreply E c cmd jid err tx extend' w))
             = [Init_thread_context, Lock_connection c 0] @ evs @ [?u]"
    using evs(1) assms(3,4) by (intro since_append) simp
  have f: "filter (is_unlock_connection c) evs = []"
    using evs(2) by (simp add: filter_empty_conv)
  have h: "connection_held c True (evs @ [?u]) = connection_held c True [?u]"
    using evs(2) by (rule connection_held_skip)
  show ?thesis
    using f h by (auto simp: s)
qed


theorem defschreply_unlocks_once_witness:
  "length (filter (is_unlock_connection 1)
     (since world1 (snd (pbs_defschreply env0 1 0 (Some ''1.svr'') 0 None None world1)))) = 1
   \<and> last (since world1 (snd (pbs_defschreply env0 1 0 (Some ''1.svr'') 0 None None world1)))
       = Unlock_connection 1 0
   \<and> \<not> connection_held 1 False
       (since world1 (snd (pbs_defschreply env0 1 0 (Some ''1.svr'') 0 None None world1)))"
  using defschreply_unlocks_once [where jid = "Some ''1.svr''" and j = "''1.svr''" and E = env0
      and c = 1 and h = False and w = world1 and cmd = 0 and err = 0 and tx = None
      and extend' = None]
  by (simp add: env0_def deref_def NUL_def)




text \<open>
  What the first condition's \<open>rc = ... != 0\<close> does to the message: when the header is
  written and the command, the job id or the error number is not, the message attached
  is \<open>dis_emsg[1]\<close>, whatever code the failing write returned.
\<close>

lemma defschreply_body_write_message:
  assumes "jid = Some j" "deref j \<noteq> NUL"
      and "fst (init_thread_context E) = 0" "fst (lock_connection E) = 0"
      and "snd (unlock_connection E) = None" "strdup_ok E" "body_write_failed E"
  shows "ch_errtxt (connection (snd (pbs_defschreply E c cmd jid err tx extend' w)) c)
           = Some (dis_emsg E 1)"
proof -
  let ?w1 = "snd (collab (Lock_connection c) (lock_connection E)
                (snd (collab (\<lambda>r. Init_thread_context) (init_thread_context E) w)))"
  have k: "first_encode_error E h \<noteq> 0" for h
    using assms(7) by (auto simp: first_encode_error_def body_write_failed_def)
  have c1: "connection ?w1 = connection w" by simp
  show ?thesis
    using defsch_exchange_result [OF assms(5) refl refl,
        where h = "if tx \<noteq> None \<and> deref (the tx) \<noteq> NUL then 1 else 0" and c = c
          and sock = "ch_socket (connection w c)" and cmd = cmd and j = j and err = err
          and tx = tx and ex = extend' and w = ?w1] k assms(6,7)
    unfolding defschreply_locked [OF assms(1-4), of c cmd err tx extend' w, symmetric] c1
    by simp
qed

section \<open>Properties of the connector\<close>

lemma find_slot_ge: "conn \<le> find_slot tbl n conn"
  by (induction tbl n conn rule: find_slot.induct) (subst find_slot.simps, auto)

lemma find_slot_free: "find_slot tbl n conn < n \<Longrightarrow> \<not> ch_inuse (tbl (find_slot tbl n conn))"
  by (induction tbl n conn rule: find_slot.induct) (subst (asm) find_slot.simps, subst find_slot.simps, auto split: if_splits)

lemma find_slot_first:
  "conn \<le> i \<Longrightarrow> i < find_slot tbl n conn \<Longrightarrow> i < n \<Longrightarrow> ch_inuse (tbl i)"
proof (induction tbl n conn rule: find_slot.induct)
  case (1 tbl n conn)
  show ?case
  proof (cases "conn < n \<and> ch_inuse (tbl conn)")
    case True
    then have eq: "find_slot tbl n conn = find_slot tbl n (conn + 1)"
      by (subst find_slot.simps) simp
    show ?thesis
    proof (cases "i = conn")
      case True
      then show ?thesis using \<open>conn < n \<and> ch_inuse (tbl conn)\<close> by simp
    next
      case False
      then show ?thesis using 1 True eq by auto
    qed
  next
    case False
    then have "find_slot tbl n conn = conn"
      by (subst find_slot.simps) auto
    then show ?thesis using 1(2,3) by simp
  qed
qed

lemma find_slot_full:
  "n \<le> find_slot tbl n conn \<longleftrightarrow> (\<forall>i. conn \<le> i \<and> i < n \<longrightarrow> ch_inuse (tbl i))"
proof
  assume "n \<le> find_slot tbl n conn"
  then show "\<forall>i. conn \<le> i \<and> i < n \<longrightarrow> ch_inuse (tbl i)"
    using find_slot_first [of conn _ tbl n] by auto
next
  assume a: "\<forall>i. conn \<le> i \<and> i < n \<longrightarrow> ch_inuse (tbl i)"
  show "n \<le> find_slot tbl n conn"
  proof (rule ccontr)
    assume "\<not> n \<le> find_slot tbl n conn"
    then have "find_slot tbl n conn < n" by simp
    then show False
      using find_slot_free [of tbl n conn] find_slot_ge [of conn tbl n] a by auto
  qed
qed

lemma first_inet_find: "first_inet pai = List.find (\<lambda>a. ai_family a = AF_INET) pai"
  by (induction pai) auto

lemma err_exit_simps [simp]:
  "fst (err_exit E w) = - 1"
  "trace (snd (err_exit E w)) = trace w @ [Unlock_conntable (fst (unlock_conntable E))]"
  "connection (snd (err_exit E w)) = connection w"
  "pbs_errno (snd (err_exit E w)) = (case snd (unlock_conntable E) of None \<Rightarrow> pbs_errno w | Some e \<Rightarrow> e)"
  by (simp_all add: err_exit_def case_prod_beta)

lemma establish_trace:
  "\<exists>mid. trace (snd (establish E conn aip w))
           = trace w @ Socket # mid @ [Unlock_conntable (fst (unlock_conntable E))]
        \<and> (\<forall>e \<in> set mid. \<not> is_table_lock e \<and> \<not> is_getaddrinfo e)
        \<and> (\<forall>e \<in> set mid. is_connect e \<longrightarrow>
              e = Connect (socket_fd E) ((ai_addr aip)\<lparr>sin_port := mom_service_port E\<rparr>))
        \<and> (0 \<le> socket_fd E \<longrightarrow>
              Connect (socket_fd E) ((ai_addr aip)\<lparr>sin_port := mom_service_port E\<rparr>) \<in> set mid)"
  by (simp add: establish_def Let_def case_prod_beta)

lemma establish_fails:
  assumes "socket_fd E < 0 \<or> connect_rc E < 0 \<or> fst (init_connect_context E) \<noteq> 0"
      and "\<not> ch_inuse (connection w conn)"
  shows "fst (establish E conn aip w) = - 1"
    and "ch_inuse (connection (snd (establish E conn aip w)) i) = ch_inuse (connection w i)"
  using assms by (auto simp: establish_def Let_def case_prod_beta)

lemma establish_succeeds:
  assumes "0 \<le> socket_fd E" "0 \<le> connect_rc E" "fst (init_connect_context E) = 0"
  shows "fst (establish E conn aip w) = (if fst (unlock_conntable E) = 0 then conn else - 1)"
    and "connection (snd (establish E conn aip w)) =
           (connection w)(conn := (connection w conn)
              \<lparr>ch_inuse := True, ch_errno := 0, ch_socket := socket_fd E, ch_errtxt := None\<rparr>)"
  using assms by (auto simp: establish_def Let_def case_prod_beta)


lemma connect_locked_full:
  "n \<le> find_slot (connection w) n 1 \<Longrightarrow>
     connect_locked n E momhost w = err_exit E (w\<lparr>pbs_errno := PBSE_NOCONNECTS\<rparr>)"
  by (simp add: connect_locked_def)

lemma connect_locked_badhost:
  assumes "find_slot (connection w) n 1 < n"
      and "getaddrinfo E (default_host momhost) AF_UNSPEC = None
           \<or> (\<exists>pai. getaddrinfo E (default_host momhost) AF_UNSPEC = Some pai \<and> first_inet pai = None)"
  shows "connect_locked n E momhost w =
           err_exit E ((log (Getaddrinfo (default_host momhost) AF_UNSPEC) w)\<lparr>pbs_errno := PBSE_BADHOST\<rparr>)"
  using assms by (auto simp: connect_locked_def Let_def)

lemma connect_locked_establish:
  assumes "find_slot (connection w) n 1 < n"
      and "getaddrinfo E (default_host momhost) AF_UNSPEC = Some pai" "first_inet pai = Some aip"
  shows "connect_locked n E momhost w =
           establish E (find_slot (connection w) n 1) aip
             (log (Getaddrinfo (default_host momhost) AF_UNSPEC) w)"
  using assms by (auto simp: connect_locked_def Let_def)

lemma connect_locked_trace:
  "\<exists>mid. trace (snd (connect_locked n E momhost w))
           = trace w @ mid @ [Unlock_conntable (fst (unlock_conntable E))]
        \<and> (\<forall>e \<in> set mid. \<not> is_table_lock e)"
proof (cases "find_slot (connection w) n 1 < n")
  case False
  then show ?thesis
    by (intro exI [of _ "[]"]) (simp add: connect_locked_full)
next
  case slot: True
  let ?g = "Getaddrinfo (default_host momhost) AF_UNSPEC"
  show ?thesis
  proof (cases "getaddrinfo E (default_host momhost) AF_UNSPEC = None
           \<or> (\<exists>pai. getaddrinfo E (default_host momhost) AF_UNSPEC = Some pai \<and> first_inet pai = None)")
    case True
    show ?thesis
      by (intro exI [of _ "[?g]"]) (simp add: connect_locked_badhost [OF slot True])
  next
    case False
    then obtain pai aip where r: "getaddrinfo E (default_host momhost) AF_UNSPEC = Some pai"
        "first_inet pai = Some aip"
      by auto
    obtain mid where mid: "trace (snd (establish E (find_slot (connection w) n 1) aip (log ?g w)))
           = trace (log ?g w) @ Socket # mid @ [Unlock_conntable (fst (unlock_conntable E))]"
        "\<forall>e \<in> set mid. \<not> is_table_lock e \<and> \<not> is_getaddrinfo e"
      using establish_trace by blast
    show ?thesis
      using mid by (intro exI [of _ "?g # Socket # mid"]) (simp add: connect_locked_establish [OF slot r])
  qed
qed

lemma connect2mom_locked:
  assumes "fst (init_thread_context E) = 0" "loadconf E \<noteq> 0" "fst (lock_conntable E) = 0"
  shows "pbs_connect2mom n E momhost w =
           connect_locked n E momhost
             (snd (collab Lock_conntable (lock_conntable E)
                (log Loadconf (snd (collab (\<lambda>r. Init_thread_context) (init_thread_context E) w)))))"
  using assms by (simp add: pbs_connect2mom_def Let_def case_prod_beta)

lemma connect2mom_not_locked:
  assumes "\<not> (fst (init_thread_context E) = 0 \<and> loadconf E \<noteq> 0 \<and> fst (lock_conntable E) = 0)"
  shows "fst (pbs_connect2mom n E momhost w) = - 1"
    and "connection (snd (pbs_connect2mom n E momhost w)) = connection w"
    and "since w (snd (pbs_connect2mom n E momhost w)) =
           (if fst (init_thread_context E) \<noteq> 0 then [Init_thread_context]
            else if loadconf E = 0 then [Init_thread_context, Loadconf]
            else [Init_thread_context, Loadconf, Lock_conntable (fst (lock_conntable E))])"
  using assms by (auto simp: pbs_connect2mom_def Let_def case_prod_beta since_def)

lemma work_all_locked_skip:
  "\<forall>e \<in> set mid. \<not> is_table_lock e \<Longrightarrow>
     work_all_locked True (mid @ es) = work_all_locked True es"
  by (induction mid) (auto elim: is_table_lock.elims)


lemma filter_unchanged_flags:
  "(\<And>i. ch_inuse (t' i) = ch_inuse (t i)) \<Longrightarrow> free_slots n t' = free_slots n t"
  by (simp add: free_slots_def)

text \<open>
  C2: when \<open>pbs_connect2mom\<close> has chosen a free slot and then fails before the connection
  is established (the resolution fails or gives no IPv4 address, the socket is not
  created, the TCP connect fails, or the context setup fails), it returns -1 and the
  in-use flag of every slot is what it was before the call; so is the number of free
  slots of the table.
\<close>

theorem connect_failure_keeps_slots:
  assumes "fst (init_thread_context E) = 0" "loadconf E \<noteq> 0" "fst (lock_conntable E) = 0"
      and "find_slot (connection w) n 1 < n"
      and "bind_fails E momhost"
  shows "fst (pbs_connect2mom n E momhost w) = - 1
       \<and> (\<forall>i. ch_inuse (connection (snd (pbs_connect2mom n E momhost w)) i)
                = ch_inuse (connection w i))
       \<and> free_slots n (connection (snd (pbs_connect2mom n E momhost w)))
           = free_slots n (connection w)"
proof -
  let ?w2 = "snd (collab Lock_conntable (lock_conntable E)
                (log Loadconf (snd (collab (\<lambda>r. Init_thread_context) (init_thread_context E) w))))"
  let ?g = "Getaddrinfo (default_host momhost) AF_UNSPEC"
  let ?conn = "find_slot (connection w) n 1"
  have run: "pbs_connect2mom n E momhost w = connect_locked n E momhost ?w2"
    using assms(1-3) by (rule connect2mom_locked)
  have c2: "connection ?w2 = connection w" by simp
  have slot: "find_slot (connection ?w2) n 1 < n" using assms(4) by simp
  have free: "\<not> ch_inuse (connection w ?conn)"
    using assms(4) by (rule find_slot_free)
  have main: "fst (connect_locked n E momhost ?w2) = - 1
       \<and> (\<forall>i. ch_inuse (connection (snd (connect_locked n E momhost ?w2)) i)
                = ch_inuse (connection w i))"
  proof (cases "getaddrinfo E (default_host momhost) AF_UNSPEC = None
           \<or> (\<exists>pai. getaddrinfo E (default_host momhost) AF_UNSPEC = Some pai \<and> first_inet pai = None)")
    case True
    show ?thesis
      by (simp add: connect_locked_badhost [OF slot True])
  next
    case False
    then obtain pai aip where r: "getaddrinfo E (default_host momhost) AF_UNSPEC = Some pai"
        "first_inet pai = Some aip"
      by auto
    have f: "socket_fd E < 0 \<or> connect_rc E < 0 \<or> fst (init_connect_context E) \<noteq> 0"
      using assms(5) r by (simp add: bind_fails_def)
    have fr: "\<not> ch_inuse (connection (log ?g ?w2) ?conn)"
      using free by simp
    show ?thesis
      using establish_fails [OF f fr, of aip] by (simp add: connect_locked_establish [OF slot r])
  qed
  then show ?thesis
    unfolding run
    using filter_unchanged_flags [of "connection (snd (connect_locked n E momhost ?w2))" "connection w" n]
    by simp
qed

theorem connect_failure_keeps_slots_witness:
  "find_slot (connection world0) 50 1 < 50 \<and> bind_fails (env0\<lparr>connect_rc := - 1, errno := 111\<rparr>) None
   \<and> fst (pbs_connect2mom 50 (env0\<lparr>connect_rc := - 1, errno := 111\<rparr>) None world0) = - 1
   \<and> free_slots 50 (connection (snd (pbs_connect2mom 50 (env0\<lparr>connect_rc := - 1, errno := 111\<rparr>) None world0)))
       = free_slots 50 (connection world0)"
proof -
  have a: "find_slot (connection world0) 50 1 < 50"
    by (simp add: find_slot.simps [of _ _ 1] world0_def free_table_def)
  have b: "bind_fails (env0\<lparr>connect_rc := - 1, errno := 111\<rparr>) None"
    by (simp add: bind_fails_def env0_def default_host_def strlen_def NUL_def loopback_def)
  show ?thesis
    using connect_failure_keeps_slots [where E = "env0\<lparr>connect_rc := - 1, errno := 111\<rparr>"
        and w = world0 and n = 50 and momhost = None] a b
    by (simp add: env0_def)
qed


lemma connect2mom_since:
  assumes "fst (init_thread_context E) = 0" "loadconf E \<noteq> 0" "fst (lock_conntable E) = 0"
  shows "\<exists>mid. since w (snd (pbs_connect2mom n E momhost w))
           = [Init_thread_context, Loadconf, Lock_conntable 0] @ mid
               @ [Unlock_conntable (fst (unlock_conntable E))]
        \<and> (\<forall>e \<in> set mid. \<not> is_table_lock e)"
proof -
  let ?w2 = "snd (collab Lock_conntable (lock_conntable E)
                (log Loadconf (snd (collab (\<lambda>r. Init_thread_context) (init_thread_context E) w))))"
  obtain mid where mid: "trace (snd (connect_locked n E momhost ?w2))
           = trace ?w2 @ mid @ [Unlock_conntable (fst (unlock_conntable E))]"
        "\<forall>e \<in> set mid. \<not> is_table_lock e"
    using connect_locked_trace by blast
  have "since w (snd (pbs_connect2mom n E momhost w))
           = [Init_thread_context, Loadconf, Lock_conntable 0] @ mid
               @ [Unlock_conntable (fst (unlock_conntable E))]"
    unfolding connect2mom_locked [OF assms] using mid(1) assms by (intro since_append) simp
  then show ?thesis using mid(2) by blast
qed

text \<open>
  C4, amended. In \<open>pbs_connect2mom\<close> the table lock is taken before the slot scan and
  held until the last action of the call. A call that takes the lock adds to the trace
  the thread-context and configuration calls, the lock, then events among which there
  is no lock or unlock of the table, then the unlock as its last event; everything from
  the slot scan on (\<open>connect_locked\<close>) runs on the world the lock has left. So address
  resolution, socket creation, TCP connect and context setup all take place while the
  lock is held, and the lock is released exactly once. A call that does not take the
  lock stops before any of these operations.
\<close>

theorem table_lock_spans_io:
  "(fst (init_thread_context E) = 0 \<and> loadconf E \<noteq> 0 \<and> fst (lock_conntable E) = 0 \<longrightarrow>
      (\<exists>w2 mid.
          trace w2 = trace w @ [Init_thread_context, Loadconf, Lock_conntable 0]
        \<and> connection w2 = connection w
        \<and> pbs_connect2mom n E momhost w = connect_locked n E momhost w2
        \<and> since w (snd (pbs_connect2mom n E momhost w))
            = [Init_thread_context, Loadconf, Lock_conntable 0] @ mid
                @ [Unlock_conntable (fst (unlock_conntable E))]
        \<and> (\<forall>e \<in> set mid. \<not> is_table_lock e)))
   \<and> (\<not> (fst (init_thread_context E) = 0 \<and> loadconf E \<noteq> 0 \<and> fst (lock_conntable E) = 0) \<longrightarrow>
        since w (snd (pbs_connect2mom n E momhost w)) =
          (if fst (init_thread_context E) \<noteq> 0 then [Init_thread_context]
           else if loadconf E = 0 then [Init_thread_context, Loadconf]
           else [Init_thread_context, Loadconf, Lock_conntable (fst (lock_conntable E))]))
   \<and> work_all_locked False (since w (snd (pbs_connect2mom n E momhost w)))"
proof (cases "fst (init_thread_context E) = 0 \<and> loadconf E \<noteq> 0 \<and> fst (lock_conntable E) = 0")
  case True
  let ?w2 = "snd (collab Lock_conntable (lock_conntable E)
                (log Loadconf (snd (collab (\<lambda>r. Init_thread_context) (init_thread_context E) w))))"
  let ?u = "Unlock_conntable (fst (unlock_conntable E))"
  have run: "pbs_connect2mom n E momhost w = connect_locked n E momhost ?w2"
    using True by (simp add: connect2mom_locked)
  have t2: "trace ?w2 = trace w @ [Init_thread_context, Loadconf, Lock_conntable 0]"
    using True by simp
  have c2: "connection ?w2 = connection w" by simp
  obtain mid where mid: "trace (snd (connect_locked n E momhost ?w2)) = trace ?w2 @ mid @ [?u]"
        "\<forall>e \<in> set mid. \<not> is_table_lock e"
    using connect_locked_trace by blast
  have s: "since w (snd (pbs_connect2mom n E momhost w))
             = [Init_thread_context, Loadconf, Lock_conntable 0] @ mid @ [?u]"
    unfolding run using mid(1) t2 by (intro since_append) simp
  have shape: "\<exists>w2 mid.
          trace w2 = trace w @ [Init_thread_context, Loadconf, Lock_conntable 0]
        \<and> connection w2 = connection w
        \<and> pbs_connect2mom n E momhost w = connect_locked n E momhost w2
        \<and> since w (snd (pbs_connect2mom n E momhost w))
            = [Init_thread_context, Loadconf, Lock_conntable 0] @ mid @ [?u]
        \<and> (\<forall>e \<in> set mid. \<not> is_table_lock e)"
    using t2 c2 run s mid(2) by blast
  have held: "work_all_locked False (since w (snd (pbs_connect2mom n E momhost w)))"
    using work_all_locked_skip [OF mid(2)] by (simp add: s)
  show ?thesis
    using True shape held by blast
next
  case False
  have s: "since w (snd (pbs_connect2mom n E momhost w)) =
          (if fst (init_thread_context E) \<noteq> 0 then [Init_thread_context]
           else if loadconf E = 0 then [Init_thread_context, Loadconf]
           else [Init_thread_context, Loadconf, Lock_conntable (fst (lock_conntable E))])"
    using connect2mom_not_locked(3) [OF False] .
  have held: "work_all_locked False (since w (snd (pbs_connect2mom n E momhost w)))"
    using False by (auto simp: s)
  show ?thesis
    using False s held by blast
qed

theorem table_lock_spans_io_witness:
  "since world0 (snd (pbs_connect2mom 50 env0 None world0)) =
     [Init_thread_context, Loadconf, Lock_conntable 0]
       @ [Getaddrinfo ''localhost'' AF_UNSPEC, Socket,
          Connect 3 \<lparr>sin_addr = 2130706433, sin_port = 15003\<rparr>, Freeaddrinfo,
          DIS_tcp_setup 3, Init_connect_context 1]
       @ [Unlock_conntable 0]
   \<and> work_all_locked False (since world0 (snd (pbs_connect2mom 50 env0 None world0)))
   \<and> filter is_locked_work (since world0 (snd (pbs_connect2mom 50 env0 None world0)))
       = [Getaddrinfo ''localhost'' AF_UNSPEC, Socket,
          Connect 3 \<lparr>sin_addr = 2130706433, sin_port = 15003\<rparr>, Init_connect_context 1]
   \<and> since world0 (snd (pbs_connect2mom 50 (env0\<lparr>lock_conntable := (1, Some 15010)\<rparr>) None world0))
       = [Init_thread_context, Loadconf, Lock_conntable 1]"
proof -
  have run: "since world0 (snd (pbs_connect2mom 50 env0 None world0)) =
     [Init_thread_context, Loadconf, Lock_conntable 0, Getaddrinfo ''localhost'' AF_UNSPEC,
      Socket, Connect 3 \<lparr>sin_addr = 2130706433, sin_port = 15003\<rparr>, Freeaddrinfo,
      DIS_tcp_setup 3, Init_connect_context 1, Unlock_conntable 0]"
    by (simp add: pbs_connect2mom_def connect_locked_def establish_def err_exit_def collab_def
        log_def since_def default_host_def strlen_def NUL_def env0_def world0_def free_table_def
        loopback_def find_slot.simps [of _ _ 1])
  show ?thesis
    using table_lock_spans_io [of env0 world0 50 None]
      table_lock_spans_io [of "env0\<lparr>lock_conntable := (1, Some 15010)\<rparr>" world0 50 None]
    by (simp add: run) (simp add: env0_def)
qed

text \<open>
  C4 as stated fails: in a successful connect to the local host the resolution, the
  socket creation and the TCP connect all happen between the lock and the unlock of the
  table.
\<close>

theorem table_lock_held_across_io:
  "\<not> io_none_locked False (since world0 (snd (pbs_connect2mom 50 env0 None world0)))"
  by (simp add: pbs_connect2mom_def connect_locked_def establish_def err_exit_def collab_def
        log_def since_def default_host_def strlen_def NUL_def env0_def world0_def free_table_def
        loopback_def find_slot.simps [of _ _ 1])

lemma connect_locked_resolution:
  assumes slot: "find_slot (connection w) n 1 < n"
  shows "\<exists>mid. trace (snd (connect_locked n E momhost w))
           = trace w @ Getaddrinfo (default_host momhost) AF_UNSPEC # mid
        \<and> (\<forall>e \<in> set mid. \<not> is_getaddrinfo e)
        \<and> (getaddrinfo E (default_host momhost) AF_UNSPEC = None
             \<or> (\<exists>pai. getaddrinfo E (default_host momhost) AF_UNSPEC = Some pai \<and> first_inet pai = None)
            \<longrightarrow> filter is_net_io mid = [])
        \<and> (\<forall>pai aip. getaddrinfo E (default_host momhost) AF_UNSPEC = Some pai
              \<and> first_inet pai = Some aip \<longrightarrow>
              (\<forall>e \<in> set mid. is_connect e \<longrightarrow>
                 e = Connect (socket_fd E) ((ai_addr aip)\<lparr>sin_port := mom_service_port E\<rparr>))
            \<and> (0 \<le> socket_fd E \<longrightarrow>
                 Connect (socket_fd E) ((ai_addr aip)\<lparr>sin_port := mom_service_port E\<rparr>) \<in> set mid))"
proof (cases "getaddrinfo E (default_host momhost) AF_UNSPEC = None
           \<or> (\<exists>pai. getaddrinfo E (default_host momhost) AF_UNSPEC = Some pai \<and> first_inet pai = None)")
  case True
  then show ?thesis
    by (intro exI [of _ "[Unlock_conntable (fst (unlock_conntable E))]"])
      (auto simp: connect_locked_badhost [OF slot True])
next
  case False
  let ?g = "Getaddrinfo (default_host momhost) AF_UNSPEC"
  from False obtain pai aip where r: "getaddrinfo E (default_host momhost) AF_UNSPEC = Some pai"
        "first_inet pai = Some aip"
    by auto
  let ?X = "Connect (socket_fd E) ((ai_addr aip)\<lparr>sin_port := mom_service_port E\<rparr>)"
  obtain mid where mid: "trace (snd (establish E (find_slot (connection w) n 1) aip (log ?g w)))
           = trace (log ?g w) @ Socket # mid @ [Unlock_conntable (fst (unlock_conntable E))]"
        "\<forall>e \<in> set mid. \<not> is_table_lock e \<and> \<not> is_getaddrinfo e"
        "\<forall>e \<in> set mid. is_connect e \<longrightarrow> e = ?X"
        "0 \<le> socket_fd E \<longrightarrow> ?X \<in> set mid"
    using establish_trace by blast
  show ?thesis
    using mid r
    by (intro exI [of _ "Socket # mid @ [Unlock_conntable (fst (unlock_conntable E))]"])
      (auto simp: connect_locked_establish [OF slot r])
qed


text \<open>
  C6: a call of \<open>pbs_connect2mom\<close> that holds the table lock and has found a slot
  resolves the host (\<open>"localhost"\<close> for a null or empty name) exactly once, asking for
  the unspecified address family. If the resolution fails or yields no candidate of
  family \<open>AF_INET\<close>, the call returns -1 with \<open>pbs_errno\<close> set to \<open>PBSE_BADHOST\<close> and
  neither creates a socket nor connects. Otherwise the only address it connects to is
  that of the first candidate whose family is \<open>AF_INET\<close>, with the MOM service port.
\<close>

theorem connect_resolves_first_ipv4:
  assumes "fst (init_thread_context E) = 0" "loadconf E \<noteq> 0" "fst (lock_conntable E) = 0"
      and "find_slot (connection w) n 1 < n"
  shows "filter is_getaddrinfo (since w (snd (pbs_connect2mom n E momhost w)))
           = [Getaddrinfo (default_host momhost) AF_UNSPEC]
       \<and> (getaddrinfo E (default_host momhost) AF_UNSPEC = None
            \<or> (\<exists>pai. getaddrinfo E (default_host momhost) AF_UNSPEC = Some pai
                  \<and> List.find (\<lambda>a. ai_family a = AF_INET) pai = None)
           \<longrightarrow> fst (pbs_connect2mom n E momhost w) = - 1
             \<and> (snd (unlock_conntable E) = None \<longrightarrow>
                  pbs_errno (snd (pbs_connect2mom n E momhost w)) = PBSE_BADHOST)
             \<and> filter is_net_io (since w (snd (pbs_connect2mom n E momhost w)))
                 = [Getaddrinfo (default_host momhost) AF_UNSPEC])
       \<and> (\<forall>pai aip. getaddrinfo E (default_host momhost) AF_UNSPEC = Some pai
              \<and> List.find (\<lambda>a. ai_family a = AF_INET) pai = Some aip \<longrightarrow>
              (\<forall>e \<in> set (since w (snd (pbs_connect2mom n E momhost w))). is_connect e \<longrightarrow>
                 e = Connect (socket_fd E) ((ai_addr aip)\<lparr>sin_port := mom_service_port E\<rparr>))
            \<and> (0 \<le> socket_fd E \<longrightarrow>
                 Connect (socket_fd E) ((ai_addr aip)\<lparr>sin_port := mom_service_port E\<rparr>)
                   \<in> set (since w (snd (pbs_connect2mom n E momhost w)))))"
proof -
  let ?w2 = "snd (collab Lock_conntable (lock_conntable E)
                (log Loadconf (snd (collab (\<lambda>r. Init_thread_context) (init_thread_context E) w))))"
  let ?g = "Getaddrinfo (default_host momhost) AF_UNSPEC"
  let ?bad = "getaddrinfo E (default_host momhost) AF_UNSPEC = None
           \<or> (\<exists>pai. getaddrinfo E (default_host momhost) AF_UNSPEC = Some pai \<and> first_inet pai = None)"
  have run: "pbs_connect2mom n E momhost w = connect_locked n E momhost ?w2"
    using assms(1-3) by (rule connect2mom_locked)
  have slot: "find_slot (connection ?w2) n 1 < n" using assms(4) by simp
  obtain mid where mid: "trace (snd (connect_locked n E momhost ?w2)) = trace ?w2 @ ?g # mid"
     "\<forall>e \<in> set mid. \<not> is_getaddrinfo e"
     "?bad \<longrightarrow> filter is_net_io mid = []"
     "\<forall>pai aip. getaddrinfo E (default_host momhost) AF_UNSPEC = Some pai
              \<and> first_inet pai = Some aip \<longrightarrow>
              (\<forall>e \<in> set mid. is_connect e \<longrightarrow>
                 e = Connect (socket_fd E) ((ai_addr aip)\<lparr>sin_port := mom_service_port E\<rparr>))
            \<and> (0 \<le> socket_fd E \<longrightarrow>
                 Connect (socket_fd E) ((ai_addr aip)\<lparr>sin_port := mom_service_port E\<rparr>) \<in> set mid)"
    using connect_locked_resolution [OF slot, of E momhost] by blast
  have s: "since w (snd (pbs_connect2mom n E momhost w))
             = [Init_thread_context, Loadconf, Lock_conntable 0, ?g] @ mid"
    unfolding run using mid(1) assms(1-3) by (intro since_append) simp
  have one: "filter is_getaddrinfo (since w (snd (pbs_connect2mom n E momhost w))) = [?g]"
    using mid(2) by (simp add: s filter_empty_conv)
  have bad: "fst (pbs_connect2mom n E momhost w) = - 1
             \<and> (snd (unlock_conntable E) = None \<longrightarrow>
                  pbs_errno (snd (pbs_connect2mom n E momhost w)) = PBSE_BADHOST)
             \<and> filter is_net_io (since w (snd (pbs_connect2mom n E momhost w))) = [?g]" if b: ?bad
  proof -
    have "filter is_net_io (since w (snd (pbs_connect2mom n E momhost w))) = [?g]"
      using mid(3) b by (simp add: s)
    then show ?thesis
      unfolding run by (simp add: connect_locked_badhost [OF slot b])
  qed
  have good: "(\<forall>e \<in> set (since w (snd (pbs_connect2mom n E momhost w))). is_connect e \<longrightarrow>
                 e = Connect (socket_fd E) ((ai_addr aip)\<lparr>sin_port := mom_service_port E\<rparr>))
            \<and> (0 \<le> socket_fd E \<longrightarrow>
                 Connect (socket_fd E) ((ai_addr aip)\<lparr>sin_port := mom_service_port E\<rparr>)
                   \<in> set (since w (snd (pbs_connect2mom n E momhost w))))"
    if "getaddrinfo E (default_host momhost) AF_UNSPEC = Some pai" "first_inet pai = Some aip"
    for pai aip
    using mid(4) that by (auto simp: s)
  show ?thesis
    using one bad good by (simp add: first_inet_find [symmetric])
qed

theorem connect_resolves_first_ipv4_witness:
  "filter is_getaddrinfo (since world0 (snd (pbs_connect2mom 50 env0 None world0)))
     = [Getaddrinfo ''localhost'' AF_UNSPEC]
   \<and> List.find (\<lambda>a. ai_family a = AF_INET) loopback
       = Some \<lparr>ai_family = AF_INET, ai_addr = \<lparr>sin_addr = 2130706433, sin_port = 0\<rparr>\<rparr>
   \<and> Connect 3 \<lparr>sin_addr = 2130706433, sin_port = 15003\<rparr>
       \<in> set (since world0 (snd (pbs_connect2mom 50 env0 None world0)))
   \<and> fst (pbs_connect2mom 50 env0 (Some ''nowhere'') world0) = - 1
   \<and> pbs_errno (snd (pbs_connect2mom 50 env0 (Some ''nowhere'') world0)) = PBSE_BADHOST"
proof -
  have a: "find_slot (connection world0) 50 1 < 50"
    by (simp add: find_slot.simps [of _ _ 1] world0_def free_table_def)
  have h: "default_host None = ''localhost''" "default_host (Some ''nowhere'') = ''nowhere''"
    by (simp_all add: default_host_def strlen_def NUL_def)
  have e: "fst (init_thread_context env0) = 0" "loadconf env0 \<noteq> 0" "fst (lock_conntable env0) = 0"
    "getaddrinfo env0 ''localhost'' AF_UNSPEC = Some loopback"
    "getaddrinfo env0 ''nowhere'' AF_UNSPEC = None" "snd (unlock_conntable env0) = None"
    "socket_fd env0 = 3" "mom_service_port env0 = 15003"
    by (simp_all add: env0_def)
  have f: "List.find (\<lambda>a. ai_family a = AF_INET) loopback
       = Some \<lparr>ai_family = AF_INET, ai_addr = \<lparr>sin_addr = 2130706433, sin_port = 0\<rparr>\<rparr>"
    by (simp add: loopback_def)
  show ?thesis
    using connect_resolves_first_ipv4 [OF e(1-3) a, of None]
      connect_resolves_first_ipv4 [OF e(1-3) a, of "Some ''nowhere''"]
    by (simp add: h e f)
qed

section \<open>Slot accounting\<close>

lemma count_after_update:
  "distinct xs \<Longrightarrow> c \<in> set xs \<Longrightarrow> \<not> P (t c) \<Longrightarrow> P v \<Longrightarrow>
     length (filter (\<lambda>i. P ((t(c := v)) i)) xs) = length (filter (\<lambda>i. P (t i)) xs) + 1"
proof (induction xs)
  case Nil
  then show ?case by simp
next
  case (Cons x xs)
  show ?case
  proof (cases "x = c")
    case True
    then have "c \<notin> set xs" using Cons.prems(1) by simp
    then have "filter (\<lambda>i. P ((t(c := v)) i)) xs = filter (\<lambda>i. P (t i)) xs"
      by (intro filter_cong) auto
    then show ?thesis using True Cons.prems(3,4) by simp
  next
    case False
    then show ?thesis using Cons by auto
  qed
qed

lemma used_slots_acquire:
  assumes "0 \<le> c" "c < n" "\<not> ch_inuse (t c)" "ch_inuse v"
  shows "used_slots n (t(c := v)) = used_slots n t + 1"
  unfolding used_slots_def using assms
  by (intro count_after_update) auto

lemma free_slots_release:
  assumes "0 \<le> c" "c < n" "ch_inuse (t c)" "\<not> ch_inuse v"
  shows "free_slots n (t(c := v)) = free_slots n t + 1"
  unfolding free_slots_def using assms
  by (intro count_after_update [where P = "\<lambda>h. \<not> ch_inuse h"]) auto

lemma free_plus_used: "0 \<le> n \<Longrightarrow> free_slots n t + used_slots n t = nat n"
  unfolding free_slots_def used_slots_def
  using sum_length_filter_compl [of "\<lambda>i. \<not> ch_inuse (t i)" "[0..n - 1]"] by simp

lemma connect2mom_success:
  assumes "fst (pbs_connect2mom n E momhost w) \<noteq> - 1"
  shows "fst (pbs_connect2mom n E momhost w) = find_slot (connection w) n 1"
    and "find_slot (connection w) n 1 < n"
    and "connection (snd (pbs_connect2mom n E momhost w)) =
           (connection w)(find_slot (connection w) n 1 :=
              (connection w (find_slot (connection w) n 1))
                \<lparr>ch_inuse := True, ch_errno := 0, ch_socket := socket_fd E, ch_errtxt := None\<rparr>)"
proof -
  let ?w2 = "snd (collab Lock_conntable (lock_conntable E)
                (log Loadconf (snd (collab (\<lambda>r. Init_thread_context) (init_thread_context E) w))))"
  let ?g = "Getaddrinfo (default_host momhost) AF_UNSPEC"
  let ?conn = "find_slot (connection w) n 1"
  have reach: "fst (init_thread_context E) = 0 \<and> loadconf E \<noteq> 0 \<and> fst (lock_conntable E) = 0"
    using assms connect2mom_not_locked(1) by blast
  then have run: "pbs_connect2mom n E momhost w = connect_locked n E momhost ?w2"
    by (simp add: connect2mom_locked)
  have c2: "connection ?w2 = connection w" by simp
  have slot: "find_slot (connection ?w2) n 1 < n"
    using assms run connect_locked_full [of n ?w2 E momhost] by (cases "?conn < n") auto
  have nb: "\<not> (getaddrinfo E (default_host momhost) AF_UNSPEC = None
           \<or> (\<exists>pai. getaddrinfo E (default_host momhost) AF_UNSPEC = Some pai \<and> first_inet pai = None))"
  proof
    assume b: "getaddrinfo E (default_host momhost) AF_UNSPEC = None
           \<or> (\<exists>pai. getaddrinfo E (default_host momhost) AF_UNSPEC = Some pai \<and> first_inet pai = None)"
    have "fst (connect_locked n E momhost ?w2) = - 1"
      by (simp add: connect_locked_badhost [OF slot b])
    then show False using assms run by simp
  qed
  then obtain pai aip where r: "getaddrinfo E (default_host momhost) AF_UNSPEC = Some pai"
        "first_inet pai = Some aip"
    by auto
  have est: "pbs_connect2mom n E momhost w = establish E ?conn aip (log ?g ?w2)"
    using connect_locked_establish [OF slot r] run by simp
  have free: "\<not> ch_inuse (connection (log ?g ?w2) ?conn)"
    using slot find_slot_free [of "connection w" n 1] by simp
  have ok: "0 \<le> socket_fd E \<and> 0 \<le> connect_rc E \<and> fst (init_connect_context E) = 0"
    using assms est establish_fails(1) [OF _ free, of E aip] by force
  show "fst (pbs_connect2mom n E momhost w) = ?conn"
    using assms ok establish_succeeds(1) [of E ?conn aip "log ?g ?w2"] unfolding est
    by (auto split: if_splits)
  show "?conn < n" using slot by simp
  show "connection (snd (pbs_connect2mom n E momhost w)) =
           (connection w)(?conn := (connection w ?conn)
                \<lparr>ch_inuse := True, ch_errno := 0, ch_socket := socket_fd E, ch_errtxt := None\<rparr>)"
    using ok establish_succeeds(2) [of E ?conn aip "log ?g ?w2"] unfolding est by simp
qed

lemma find_slot_after_prefix:
  assumes inv: "\<forall>i. 0 \<le> i \<and> i < n \<longrightarrow> ch_inuse (t i) = (1 \<le> i \<and> i \<le> k)"
      and "0 \<le> k" and slot: "find_slot t n 1 < n"
  shows "find_slot t n 1 = k + 1"
proof -
  let ?r = "find_slot t n 1"
  have r1: "1 \<le> ?r" by (rule find_slot_ge)
  have fr: "\<not> ch_inuse (t ?r)" using slot by (rule find_slot_free)
  then have gt: "k < ?r" using inv r1 slot by auto
  have "\<not> k + 1 < ?r"
  proof
    assume a: "k + 1 < ?r"
    then have "ch_inuse (t (k + 1))"
      using find_slot_first [of 1 "k + 1" t n] slot assms(2) by auto
    then show False using inv a slot assms(2) by auto
  qed
  then show ?thesis using gt by simp
qed

lemma connects_fill:
  assumes "\<forall>i. 0 \<le> i \<and> i < n \<longrightarrow> ch_inuse (connection w i) = (1 \<le> i \<and> i \<le> k)"
      and "0 \<le> k"
      and "connects n calls w = (rs, w1)" and "\<forall>r \<in> set rs. r \<noteq> - 1"
  shows "rs = [k + 1..k + int (length calls)]
       \<and> (\<forall>i. 0 \<le> i \<and> i < n \<longrightarrow>
             ch_inuse (connection w1 i) = (1 \<le> i \<and> i \<le> k + int (length calls)))
       \<and> (calls \<noteq> [] \<longrightarrow> k + int (length calls) < n)
       \<and> used_slots n (connection w1) = used_slots n (connection w) + length calls"
  using assms
proof (induction calls arbitrary: w k rs w1)
  case Nil
  then show ?case by simp
next
  case (Cons call calls)
  obtain E momhost where call: "call = (E, momhost)" by (cases call)
  let ?p = "pbs_connect2mom n E momhost w"
  let ?q = "connects n calls (snd ?p)"
  have rs: "rs = fst ?p # fst ?q" and w1: "w1 = snd ?q"
    using Cons.prems(3) by (auto simp: call Let_def case_prod_beta)
  have ok: "fst ?p \<noteq> - 1" using Cons.prems(4) rs by simp
  let ?c = "find_slot (connection w) n 1"
  note s = connect2mom_success [OF ok]
  have c: "?c = k + 1"
    using find_slot_after_prefix [OF Cons.prems(1,2) s(2)] .
  have inv': "\<forall>i. 0 \<le> i \<and> i < n \<longrightarrow> ch_inuse (connection (snd ?p) i) = (1 \<le> i \<and> i \<le> k + 1)"
    using Cons.prems(1,2) by (auto simp: s(3) c)
  have free: "\<not> ch_inuse (connection w ?c)"
    using s(2) by (rule find_slot_free)
  have used: "used_slots n (connection (snd ?p)) = used_slots n (connection w) + 1"
    unfolding s(3) using Cons.prems(2) s(2) free c by (intro used_slots_acquire) auto
  have q: "connects n calls (snd ?p) = (fst ?q, snd ?q)" by simp
  have all: "\<forall>r \<in> set (fst ?q). r \<noteq> - 1" using Cons.prems(4) rs by simp
  have k1: "0 \<le> k + 1" using Cons.prems(2) by simp
  note ih = Cons.IH [OF inv' k1 q all]
  have a: "k + int (length (call # calls)) = k + 1 + int (length calls)" by simp
  have b: "k + 1 \<le> k + 1 + int (length calls)" by simp
  have m: "[k + 1..k + 1 + int (length calls)] = (k + 1) # [k + 1 + 1..k + 1 + int (length calls)]"
    by (rule upto_rec1 [OF b])
  have g1: "rs = [k + 1..k + 1 + int (length calls)]"
    unfolding m rs using ih by (simp add: s(1) c)
  have g2: "\<forall>i. 0 \<le> i \<and> i < n \<longrightarrow>
             ch_inuse (connection w1 i) = (1 \<le> i \<and> i \<le> k + 1 + int (length calls))"
    unfolding w1 using ih by blast
  have g3: "k + 1 + int (length calls) < n"
    using ih s(2) c by (cases "calls = []") auto
  have g4: "used_slots n (connection w1) = used_slots n (connection w) + length (call # calls)"
    unfolding w1 using ih used by simp
  show ?case
    unfolding a using g1 g2 g3 g4 by blast
qed


lemma connect2mom_table_full:
  assumes "fst (init_thread_context E) = 0" "loadconf E \<noteq> 0" "fst (lock_conntable E) = 0"
      and "n \<le> find_slot (connection w) n 1"
  shows "fst (pbs_connect2mom n E momhost w) = - 1"
    and "snd (unlock_conntable E) = None \<Longrightarrow>
           pbs_errno (snd (pbs_connect2mom n E momhost w)) = PBSE_NOCONNECTS"
    and "since w (snd (pbs_connect2mom n E momhost w)) =
           [Init_thread_context, Loadconf, Lock_conntable 0,
            Unlock_conntable (fst (unlock_conntable E))]"
  using assms
  by (simp_all add: connect2mom_locked connect_locked_full since_def)

lemma connect2mom_resolution_attempted:
  assumes "fst (init_thread_context E) = 0" "loadconf E \<noteq> 0" "fst (lock_conntable E) = 0"
      and "find_slot (connection w) n 1 < n"
  shows "Getaddrinfo (default_host momhost) AF_UNSPEC
           \<in> set (since w (snd (pbs_connect2mom n E momhost w)))"
proof -
  let ?w2 = "snd (collab Lock_conntable (lock_conntable E)
                (log Loadconf (snd (collab (\<lambda>r. Init_thread_context) (init_thread_context E) w))))"
  have slot: "find_slot (connection ?w2) n 1 < n" using assms(4) by simp
  obtain mid where "trace (snd (connect_locked n E momhost ?w2))
      = trace ?w2 @ Getaddrinfo (default_host momhost) AF_UNSPEC # mid"
    using connect_locked_resolution [OF slot, of E momhost] by blast
  then show ?thesis
    by (simp add: connect2mom_locked [OF assms(1-3)] since_def)
qed

text \<open>
  C5, amended. Slot acquisition scans the slots from 1 on, in order, and a successful
  connect returns the first of them that is not in use; slot 0 is never handed out.
  From a table with no slot in use, \<open>N\<close> successful connects with no release return
  the handles 1 to \<open>N\<close> and leave \<open>N\<close> slots in use; the scan of the next call finds
  no slot exactly when \<open>N = NCONNECTS - 1\<close>: then that call returns -1 with
  \<open>PBSE_NOCONNECTS\<close> and performs no network operation, and otherwise it picks the slot
  \<open>N + 1\<close> and goes on to resolve the host. Releasing a slot that is in use raises the
  number of free slots by exactly one.
\<close>

theorem slot_accounting:
  assumes "1 \<le> n"
      and "\<forall>i. 0 \<le> i \<and> i < n \<longrightarrow> \<not> ch_inuse (connection w i)"
      and "connects n calls w = (rs, w1)" and "\<forall>r \<in> set rs. r \<noteq> - 1"
      and "fst (init_thread_context E) = 0" "loadconf E \<noteq> 0" "fst (lock_conntable E) = 0"
  shows "rs = [1..int (length calls)]
       \<and> int (length calls) \<le> n - 1
       \<and> used_slots n (connection w1) = length calls
       \<and> free_slots n (connection w1) = nat n - length calls
       \<and> (n \<le> find_slot (connection w1) n 1 \<longleftrightarrow> int (length calls) = n - 1)
       \<and> (int (length calls) = n - 1 \<longrightarrow>
            fst (pbs_connect2mom n E momhost w1) = - 1
          \<and> (snd (unlock_conntable E) = None \<longrightarrow>
               pbs_errno (snd (pbs_connect2mom n E momhost w1)) = PBSE_NOCONNECTS)
          \<and> filter is_net_io (since w1 (snd (pbs_connect2mom n E momhost w1))) = [])
       \<and> (int (length calls) \<noteq> n - 1 \<longrightarrow>
            find_slot (connection w1) n 1 = int (length calls) + 1
          \<and> Getaddrinfo (default_host momhost) AF_UNSPEC
               \<in> set (since w1 (snd (pbs_connect2mom n E momhost w1)))
          \<and> (fst (pbs_connect2mom n E momhost w1) \<noteq> - 1 \<longrightarrow>
               fst (pbs_connect2mom n E momhost w1) = int (length calls) + 1))
       \<and> (0 \<le> c \<and> c < n \<and> ch_inuse (connection w2 c) \<longrightarrow>
            free_slots n (connection (release_slot c w2)) = free_slots n (connection w2) + 1)
       \<and> (fst (pbs_connect2mom n E2 momhost2 w2) \<noteq> - 1 \<longrightarrow>
            1 \<le> fst (pbs_connect2mom n E2 momhost2 w2)
          \<and> fst (pbs_connect2mom n E2 momhost2 w2) < n
          \<and> \<not> ch_inuse (connection w2 (fst (pbs_connect2mom n E2 momhost2 w2)))
          \<and> (\<forall>i. 1 \<le> i \<and> i < fst (pbs_connect2mom n E2 momhost2 w2) \<longrightarrow>
                ch_inuse (connection w2 i)))"
proof -
  let ?N = "int (length calls)"
  have inv0: "\<forall>i. 0 \<le> i \<and> i < n \<longrightarrow> ch_inuse (connection w i) = (1 \<le> i \<and> i \<le> 0)"
    using assms(2) by auto
  have fill: "rs = [0 + 1..0 + ?N]"
      "\<forall>i. 0 \<le> i \<and> i < n \<longrightarrow> ch_inuse (connection w1 i) = (1 \<le> i \<and> i \<le> 0 + ?N)"
      "calls \<noteq> [] \<longrightarrow> 0 + ?N < n"
      "used_slots n (connection w1) = used_slots n (connection w) + length calls"
    using connects_fill [OF inv0 _ assms(3,4)] by simp_all
  have u0: "used_slots n (connection w) = 0"
    using assms(2) by (simp add: used_slots_def filter_empty_conv)
  have g1: "rs = [1..?N]" using fill(1) by simp
  have g2: "?N \<le> n - 1" using fill(3) assms(1) by (cases "calls = []") auto
  have g3: "used_slots n (connection w1) = length calls" using fill(4) u0 by simp
  have g4: "free_slots n (connection w1) = nat n - length calls"
    using free_plus_used [of n "connection w1"] assms(1) g3 by simp
  have inv: "\<forall>i. 0 \<le> i \<and> i < n \<longrightarrow> ch_inuse (connection w1 i) = (1 \<le> i \<and> i \<le> ?N)"
    using fill(2) by simp
  have g5: "n \<le> find_slot (connection w1) n 1 \<longleftrightarrow> ?N = n - 1"
  proof
    assume "n \<le> find_slot (connection w1) n 1"
    then have all: "\<forall>i. 1 \<le> i \<and> i < n \<longrightarrow> ch_inuse (connection w1 i)"
      by (simp add: find_slot_full)
    show "?N = n - 1"
    proof (rule ccontr)
      assume "?N \<noteq> n - 1"
      then have lt: "?N + 1 < n" using g2 by simp
      then have "ch_inuse (connection w1 (?N + 1))" using all by simp
      then show False using inv lt by auto
    qed
  next
    assume "?N = n - 1"
    then have "\<forall>i. 1 \<le> i \<and> i < n \<longrightarrow> ch_inuse (connection w1 i)"
      using inv by auto
    then show "n \<le> find_slot (connection w1) n 1"
      by (simp add: find_slot_full)
  qed
  have g6: "fst (pbs_connect2mom n E momhost w1) = - 1
          \<and> (snd (unlock_conntable E) = None \<longrightarrow>
               pbs_errno (snd (pbs_connect2mom n E momhost w1)) = PBSE_NOCONNECTS)
          \<and> filter is_net_io (since w1 (snd (pbs_connect2mom n E momhost w1))) = []"
    if "?N = n - 1"
    using connect2mom_table_full [OF assms(5-7), of n w1 momhost] g5 that by simp
  have g7: "find_slot (connection w1) n 1 = ?N + 1
          \<and> Getaddrinfo (default_host momhost) AF_UNSPEC
               \<in> set (since w1 (snd (pbs_connect2mom n E momhost w1)))
          \<and> (fst (pbs_connect2mom n E momhost w1) \<noteq> - 1 \<longrightarrow>
               fst (pbs_connect2mom n E momhost w1) = ?N + 1)"
    if "?N \<noteq> n - 1"
  proof -
    have slot: "find_slot (connection w1) n 1 < n" using g5 that by simp
    have eq: "find_slot (connection w1) n 1 = ?N + 1"
      using find_slot_after_prefix [OF inv _ slot] by simp
    show ?thesis
      using eq connect2mom_resolution_attempted [OF assms(5-7) slot, of momhost]
        connect2mom_success(1) [of n E momhost w1] by simp
  qed
  have g8: "free_slots n (connection (release_slot c w2)) = free_slots n (connection w2) + 1"
    if "0 \<le> c \<and> c < n \<and> ch_inuse (connection w2 c)"
    using that by (simp add: release_slot_def Let_def free_slots_release)
  have g9: "1 \<le> fst (pbs_connect2mom n E2 momhost2 w2)
          \<and> fst (pbs_connect2mom n E2 momhost2 w2) < n
          \<and> \<not> ch_inuse (connection w2 (fst (pbs_connect2mom n E2 momhost2 w2)))
          \<and> (\<forall>i. 1 \<le> i \<and> i < fst (pbs_connect2mom n E2 momhost2 w2) \<longrightarrow>
                ch_inuse (connection w2 i))"
    if ok: "fst (pbs_connect2mom n E2 momhost2 w2) \<noteq> - 1"
  proof -
    note s = connect2mom_success [OF ok]
    show ?thesis
      unfolding s(1)
      using s(2) find_slot_ge [of 1 "connection w2" n] find_slot_free [OF s(2)]
        find_slot_first [of 1 _ "connection w2" n] by auto
  qed
  show ?thesis
    using g1 g2 g3 g4 g5 g6 g7 g8 g9 by blast
qed


lemmas connect_run_defs = pbs_connect2mom_def connect_locked_def establish_def err_exit_def
  collab_def log_def default_host_def strlen_def NUL_def env0_def world0_def free_table_def
  loopback_def Let_def

lemma two_connects:
  "fst (connects 3 [(env0, None), (env0, None)] world0) = [1, 2]"
  by (simp add: connect_run_defs find_slot.simps)

theorem slot_accounting_witness:
  "fst (connects 3 [(env0, None), (env0, None)] world0) = [1..int (length [(env0, None), (env0, None)])]
   \<and> used_slots 3 (connection (snd (connects 3 [(env0, None), (env0, None)] world0))) = 2
   \<and> free_slots 3 (connection (snd (connects 3 [(env0, None), (env0, None)] world0))) = 1
   \<and> fst (pbs_connect2mom 3 env0 None (snd (connects 3 [(env0, None), (env0, None)] world0))) = - 1
   \<and> pbs_errno (snd (pbs_connect2mom 3 env0 None
         (snd (connects 3 [(env0, None), (env0, None)] world0)))) = PBSE_NOCONNECTS
   \<and> free_slots 3 (connection (release_slot 1 world1)) = free_slots 3 (connection world1) + 1"
proof -
  have a: "\<forall>i. 0 \<le> i \<and> i < 3 \<longrightarrow> \<not> ch_inuse (connection world0 i)"
    by (simp add: world0_def free_table_def)
  have b: "connects 3 [(env0, None), (env0, None)] world0
             = (fst (connects 3 [(env0, None), (env0, None)] world0),
                snd (connects 3 [(env0, None), (env0, None)] world0))"
    by simp
  have c: "\<forall>r \<in> set (fst (connects 3 [(env0, None), (env0, None)] world0)). r \<noteq> - 1"
    unfolding two_connects by simp
  have e: "fst (init_thread_context env0) = 0" "loadconf env0 \<noteq> 0" "fst (lock_conntable env0) = 0"
    "snd (unlock_conntable env0) = None"
    by (simp_all add: env0_def)
  have u: "ch_inuse (connection world1 1)"
    by (simp add: world1_def)
  show ?thesis
    using slot_accounting [OF _ a b c e(1-3), where momhost = None and c = 1 and ?w2.0 = world1] e(4) u
    by (simp del: connects.simps)
qed

text \<open>
  C5 as stated fails: with a table of 3 slots, all free, the first connect returns the
  handle 1 although slot 0 is the first slot that is not in use, and the third connect
  fails with \<open>PBSE_NOCONNECTS\<close> after 2 successful ones, slot 0 still free.
\<close>

theorem slot_zero_never_acquired:
  "fst (connects 3 [(env0, None), (env0, None), (env0, None)] world0) = [1, 2, - 1]
   \<and> pbs_errno (snd (connects 3 [(env0, None), (env0, None), (env0, None)] world0))
       = PBSE_NOCONNECTS
   \<and> \<not> ch_inuse (connection world0 0)
   \<and> \<not> ch_inuse (connection (snd (connects 3 [(env0, None), (env0, None), (env0, None)] world0)) 0)"
  by (simp add: connect_run_defs find_slot.simps)

section \<open>Properties of the staging name parser\<close>

lemma NUL_classes [simp]:
  "\<not> isspace NUL" "\<not> isprint NUL" "\<not> ISNAMECHAR NUL" "\<not> ISNAMECHAR2 NUL"
  "CHR ''@'' \<noteq> NUL" "CHR '':'' \<noteq> NUL"
  by (simp_all add: isspace_def isprint_def ISNAMECHAR_def ISNAMECHAR2_def NUL_def)

lemma colon_is_namechar [simp]: "ISNAMECHAR CHR '':''"
  by (simp add: ISNAMECHAR_def isprint_def)

lemma skip_space_dropWhile: "skip_space p = dropWhile isspace p"
  by (induction p) auto

lemma copy_part_full:
  assumes "\<not> ok NUL" "pos \<le> limit"
  shows "fst (copy_part ok limit p buf pos) = (limit < pos + length (takeWhile ok p))"
  using assms
proof (induction p arbitrary: buf pos)
  case Nil
  then show ?case by simp
next
  case (Cons x xs)
  then show ?case by (cases "x = NUL") auto
qed

lemma copy_part_done:
  assumes "\<not> ok NUL" "pos + length (takeWhile ok p) \<le> limit"
  shows "copy_part ok limit p buf pos =
           (False, dropWhile ok p,
            (\<lambda>i. if pos \<le> i \<and> i < pos + length (takeWhile ok p)
                  then takeWhile ok p ! (i - pos) else buf i),
            pos + length (takeWhile ok p))"
  using assms
proof (induction p arbitrary: buf pos)
  case Nil
  then show ?case by (auto simp: fun_eq_iff)
next
  case (Cons x xs)
  show ?case
  proof (cases "ok x")
    case False
    then show ?thesis by (auto simp: fun_eq_iff)
  next
    case True
    then have nz: "x \<noteq> NUL" using Cons.prems(1) by auto
    have le: "Suc pos + length (takeWhile ok xs) \<le> limit" "pos < limit"
      using Cons.prems(2) True by simp_all
    have ih: "copy_part ok limit xs (buf(pos := x)) (Suc pos) =
           (False, dropWhile ok xs,
            (\<lambda>i. if Suc pos \<le> i \<and> i < Suc pos + length (takeWhile ok xs)
                  then takeWhile ok xs ! (i - Suc pos) else (buf(pos := x)) i),
            Suc pos + length (takeWhile ok xs))"
      using Cons.IH [OF Cons.prems(1) le(1)] .
    have f: "(\<lambda>i. if Suc pos \<le> i \<and> i < Suc pos + length (takeWhile ok xs)
                  then takeWhile ok xs ! (i - Suc pos) else (buf(pos := x)) i)
           = (\<lambda>i. if pos \<le> i \<and> i < pos + length (takeWhile ok (x # xs))
                  then takeWhile ok (x # xs) ! (i - pos) else buf i)"
      using True by (auto simp: fun_eq_iff nth_Cons' Suc_diff_le)
    show ?thesis
      using True nz le(2) ih f by simp
  qed
qed


lemma copy_part_full_0:
  "\<not> ok NUL \<Longrightarrow> fst (copy_part ok limit p buf 0) = (limit < length (takeWhile ok p))"
  using copy_part_full [of ok 0 limit p buf] by simp

lemma copy_part_from_0:
  "\<not> ok NUL \<Longrightarrow> length (takeWhile ok p) \<le> limit \<Longrightarrow>
     copy_part ok limit p buf 0 =
       (False, dropWhile ok p,
        (\<lambda>i. if i < length (takeWhile ok p) then takeWhile ok p ! i else buf i),
        length (takeWhile ok p))"
  using copy_part_done [of ok 0 p limit buf] by (simp cong: if_cong)

lemma after_local_not_colon: "deref (after_local pair) \<noteq> CHR '':''"
proof (cases "after_local pair")
  case Nil
  then show ?thesis by (simp add: deref_def NUL_def)
next
  case (Cons x xs)
  then have ne: "dropWhile ISNAMECHAR (skip_space pair) \<noteq> []"
    by (simp add: after_local_def)
  have "\<not> ISNAMECHAR (hd (dropWhile ISNAMECHAR (skip_space pair)))"
    using ne by (rule hd_dropWhile)
  then have "\<not> ISNAMECHAR x" using Cons by (simp add: after_local_def)
  then show ?thesis using Cons by (auto simp: deref_def)
qed

lemma stored_fill:
  "(\<lambda>i. if i < length s then s ! i else buf i)(length s := NUL) = stored buf s"
  by (auto simp: stored_def fun_eq_iff)

lemma parse_stage_name_rc:
  "fst (parse_stage_name M S pair lb hb rb) = (if well_formed_pair M S pair then 0 else 1)"
proof -
  let ?c0 = "dropWhile isspace pair"
  let ?p1 = "copy_part ISNAMECHAR M ?c0 lb 0"
  have l: "local_part pair = takeWhile ISNAMECHAR ?c0" "after_local pair = dropWhile ISNAMECHAR ?c0"
    by (simp_all add: local_part_def after_local_def skip_space_dropWhile)
  show ?thesis
  proof (cases "M < length (local_part pair)")
    case True
    then have "fst ?p1" using l by (simp add: copy_part_full_0)
    then show ?thesis
      using True by (simp add: parse_stage_name_def skip_space_dropWhile case_prod_beta
          well_formed_pair_def)
  next
    case lok: False
    then have p1: "?p1 = (False, after_local pair,
        (\<lambda>i. if i < length (local_part pair) then local_part pair ! i else lb i),
        length (local_part pair))"
      unfolding l by (intro copy_part_from_0) simp_all
    show ?thesis
    proof (cases "local_part pair = []")
      case True
      then show ?thesis
        using p1 by (simp add: parse_stage_name_def skip_space_dropWhile well_formed_pair_def)
    next
      case lne: False
      let ?at = "deref (after_local pair) = CHR ''@''"
      let ?p2 = "copy_part ISNAMECHAR2 S (tl (after_local pair)) hb 0"
      show ?thesis
      proof (cases ?at)
        case False
        then have "host_part pair = []" by (simp add: host_part_def)
        moreover have "after_host pair = after_local pair"
          using False by (simp add: after_host_def)
        ultimately show ?thesis
          using False p1 lne after_local_not_colon [of pair]
          by (simp add: parse_stage_name_def skip_space_dropWhile well_formed_pair_def)
      next
        case at: True
        then have h: "host_part pair = takeWhile ISNAMECHAR2 (tl (after_local pair))"
            "after_host pair = dropWhile ISNAMECHAR2 (tl (after_local pair))"
          by (simp_all add: host_part_def after_host_def)
        show ?thesis
        proof (cases "S < length (host_part pair)")
          case True
          then have "fst ?p2" using h by (simp add: copy_part_full_0)
          then show ?thesis
            using True at p1 lne
            by (simp add: parse_stage_name_def skip_space_dropWhile case_prod_beta
                well_formed_pair_def)
        next
          case hok: False
          then have p2: "?p2 = (False, after_host pair,
              (\<lambda>i. if i < length (host_part pair) then host_part pair ! i else hb i),
              length (host_part pair))"
            unfolding h by (intro copy_part_from_0) simp_all
          show ?thesis
          proof (cases "host_part pair = []")
            case True
            then show ?thesis
              using at p1 p2 lne
              by (simp add: parse_stage_name_def skip_space_dropWhile well_formed_pair_def)
          next
            case hne: False
            let ?colon = "deref (after_host pair) = CHR '':''"
            let ?p3 = "copy_part ISNAMECHAR M (tl (after_host pair)) rb 0"
            show ?thesis
            proof (cases ?colon)
              case False
              then have "remote_part pair = []" by (simp add: remote_part_def)
              then show ?thesis
                using False at p1 p2 lne hne
                by (simp add: parse_stage_name_def skip_space_dropWhile well_formed_pair_def)
            next
              case colon: True
              then have r: "remote_part pair = takeWhile ISNAMECHAR (tl (after_host pair))"
                  "after_remote pair = dropWhile ISNAMECHAR (tl (after_host pair))"
                by (simp_all add: remote_part_def after_remote_def)
              show ?thesis
              proof (cases "M < length (remote_part pair)")
                case True
                then have "fst ?p3" using r by (simp add: copy_part_full_0)
                then show ?thesis
                  using True at colon p1 p2 lne hne
                  by (simp add: parse_stage_name_def skip_space_dropWhile case_prod_beta
                      well_formed_pair_def)
              next
                case rok: False
                then have p3: "?p3 = (False, after_remote pair,
                    (\<lambda>i. if i < length (remote_part pair) then remote_part pair ! i else rb i),
                    length (remote_part pair))"
                  unfolding r by (intro copy_part_from_0) simp_all
                show ?thesis
                  using at colon p1 p2 p3 lne hne lok hok rok
                  by (simp add: parse_stage_name_def skip_space_dropWhile well_formed_pair_def)
              qed
            qed
          qed
        qed
      qed
    qed
  qed
qed


lemma parse_stage_name_buffers:
  assumes wf: "well_formed_pair M S pair"
  shows "snd (parse_stage_name M S pair lb hb rb) =
           (stored lb (local_part pair), stored hb (host_part pair), stored rb (remote_part pair))"
proof -
  let ?c0 = "dropWhile isspace pair"
  have at: "deref (after_local pair) = CHR ''@''"
    using wf by (auto simp: well_formed_pair_def host_part_def split: if_splits)
  have colon: "deref (after_host pair) = CHR '':''"
    using wf by (auto simp: well_formed_pair_def remote_part_def split: if_splits)
  have l: "local_part pair = takeWhile ISNAMECHAR ?c0" "after_local pair = dropWhile ISNAMECHAR ?c0"
    by (simp_all add: local_part_def after_local_def skip_space_dropWhile)
  have h: "host_part pair = takeWhile ISNAMECHAR2 (tl (after_local pair))"
      "after_host pair = dropWhile ISNAMECHAR2 (tl (after_local pair))"
    using at by (simp_all add: host_part_def after_host_def)
  have r: "remote_part pair = takeWhile ISNAMECHAR (tl (after_host pair))"
      "after_remote pair = dropWhile ISNAMECHAR (tl (after_host pair))"
    using colon by (simp_all add: remote_part_def after_remote_def)
  have p1: "copy_part ISNAMECHAR M ?c0 lb 0 = (False, after_local pair,
        (\<lambda>i. if i < length (local_part pair) then local_part pair ! i else lb i),
        length (local_part pair))"
    unfolding l using wf by (intro copy_part_from_0) (simp_all add: well_formed_pair_def l)
  have p2: "copy_part ISNAMECHAR2 S (tl (after_local pair)) hb 0 = (False, after_host pair,
        (\<lambda>i. if i < length (host_part pair) then host_part pair ! i else hb i),
        length (host_part pair))"
    unfolding h using wf by (intro copy_part_from_0) (simp_all add: well_formed_pair_def h)
  have p3: "copy_part ISNAMECHAR M (tl (after_host pair)) rb 0 = (False, after_remote pair,
        (\<lambda>i. if i < length (remote_part pair) then remote_part pair ! i else rb i),
        length (remote_part pair))"
    unfolding r using wf by (intro copy_part_from_0) (simp_all add: well_formed_pair_def r)
  show ?thesis
    using wf at colon p1 p2 p3
    by (simp add: parse_stage_name_def skip_space_dropWhile well_formed_pair_def stored_fill)
qed









lemma char_classes [simp]:
  "ISNAMECHAR CHR ''a''" "\<not> isspace CHR ''a''" "\<not> ISNAMECHAR CHR ''@''"
  "ISNAMECHAR2 CHR ''h''" "\<not> ISNAMECHAR2 CHR '':''" "ISNAMECHAR CHR ''r''"
  by (simp_all add: ISNAMECHAR_def ISNAMECHAR2_def isprint_def isspace_def)






text \<open>
  The host boundary. The host loop has the same test as the other two, so a host part
  of exactly \<open>PBS_MAXSERVERNAME\<close> characters is stored and its NUL is written at the
  index \<open>PBS_MAXSERVERNAME\<close>. \<open>parse_stage_list\<close> passes a buffer declared
  \<open>char host[PBS_MAXSERVERNAME]\<close>, which has no element of that index.
\<close>

lemma parse_stage_name_host_terminator:
  assumes "parse_stage_name M S pair lb hb rb = (0, lb', hb', rb')"
      and "length (host_part pair) = S"
  shows "hb' S = NUL" and "hb' S = stored hb (host_part pair) (length (host_part pair))"
proof -
  have wf: "well_formed_pair M S pair"
    using parse_stage_name_rc [of M S pair lb hb rb] assms(1) by (simp split: if_splits)
  have "hb' = stored hb (host_part pair)"
    using parse_stage_name_buffers [OF wf, of lb hb rb] assms(1) by simp
  then show "hb' S = NUL" and "hb' S = stored hb (host_part pair) (length (host_part pair))"
    using assms(2) by (simp_all add: stored_def)
qed

section \<open>Properties of the credential decoder\<close>

text \<open>
  C9: \<open>decode_DIS_JobCred\<close> clears \<open>rq_data\<close> before any read: whenever reading the
  credential type fails (the code stored by \<open>disrui\<close> is nonzero), the function returns
  that nonzero code and \<open>rq_data\<close> is null, whatever it held before the call and
  whatever \<open>disrcs\<close> would have done.
\<close>

theorem decode_JobCred_type_failure:
  assumes "disrui sock = (v, rc, rest)" and "rc \<noteq> 0"
  shows "fst (decode_DIS_JobCred disrui disrcs sock preq) = rc
       \<and> fst (decode_DIS_JobCred disrui disrcs sock preq) \<noteq> 0
       \<and> rq_data (snd (snd (decode_DIS_JobCred disrui disrcs sock preq))) = None"
  using assms by (simp add: decode_DIS_JobCred_def)

theorem decode_JobCred_type_failure_witness:
  "rd_byte [] = (0, 11, []) \<and> (11::int) \<noteq> 0
   \<and> fst (decode_DIS_JobCred rd_byte (disrcs_spec rd_byte 9) []
        \<lparr>rq_type = 5, rq_size = 3, rq_data = Some ''old''\<rparr>) = 11
   \<and> rq_data (snd (snd (decode_DIS_JobCred rd_byte (disrcs_spec rd_byte 9) []
        \<lparr>rq_type = 5, rq_size = 3, rq_data = Some ''old''\<rparr>))) = None"
  using decode_JobCred_type_failure [where disrui = rd_byte and sock = "[]" and v = 0
      and rc = 11 and rest = "[]" and disrcs = "disrcs_spec rd_byte 9"
      and preq = "\<lparr>rq_type = 5, rq_size = 3, rq_data = Some ''old''\<rparr>"]
  by (simp add: rd_byte_def)

text \<open>
  C7: \<open>decode_DIS_JobCred\<close> reads the credential type and then the counted string, from
  the stream as the type's read left it, and nothing else. With \<open>disrcs\<close> as the spec
  describes it, a stream whose counted string declares the length 0 is decoded with
  \<open>DIS_SUCCESS\<close>, a size of 0 and a payload buffer that is empty and not null; a declared
  length that the stream can satisfy yields that many bytes.
\<close>

theorem decode_JobCred_counted_string:
  assumes "rd s = (t, 0, s1)" and "rd s1 = (n, 0, s2)"
  shows "(n \<le> length s2 \<longrightarrow>
            decode_DIS_JobCred rd (disrcs_spec rd bad) s preq
              = (DIS_SUCCESS, drop n s2, \<lparr>rq_type = t, rq_size = n, rq_data = Some (take n s2)\<rparr>))
       \<and> (n = 0 \<longrightarrow>
            decode_DIS_JobCred rd (disrcs_spec rd bad) s preq
              = (DIS_SUCCESS, s2, \<lparr>rq_type = t, rq_size = 0, rq_data = Some []\<rparr>))"
  using assms by (simp add: decode_DIS_JobCred_def disrcs_spec_def)

theorem decode_JobCred_counted_string_witness:
  "rd_byte [CHR 0x07, CHR 0x00, CHR ''x''] = (7, 0, [CHR 0x00, CHR ''x''])
   \<and> rd_byte [CHR 0x00, CHR ''x''] = (0, 0, [CHR ''x''])
   \<and> decode_DIS_JobCred rd_byte (disrcs_spec rd_byte 9) [CHR 0x07, CHR 0x00, CHR ''x'']
        \<lparr>rq_type = 5, rq_size = 3, rq_data = Some ''old''\<rparr>
      = (DIS_SUCCESS, [CHR ''x''], \<lparr>rq_type = 7, rq_size = 0, rq_data = Some []\<rparr>)"
proof -
  have a: "rd_byte [CHR 0x07, CHR 0x00, CHR ''x''] = (7, 0, [CHR 0x00, CHR ''x''])"
    by (simp add: rd_byte_def)
  have b: "rd_byte [CHR 0x00, CHR ''x''] = (0, 0, [CHR ''x''])"
    by (simp add: rd_byte_def)
  show ?thesis
    using decode_JobCred_counted_string [OF a b, of 9 "\<lparr>rq_type = 5, rq_size = 3, rq_data = Some ''old''\<rparr>"]
      a b
    by simp
qed

end
